(* ===== verification/Prelude.thy ===== *)
theory Prelude
  imports Main
begin

text \<open>
  Shared vocabulary of the development: the lemma collections the component theories
  fill, the exception-style bind on sums that models a JavaScript callback body which
  may throw, and generic facts on lists and sums used by several components.
\<close>

named_theorems task_simps
  \<open>evaluation equations of the asynchronous task combinators\<close>
named_theorems wf_intros
  \<open>well-formedness (timing) facts of tasks, one per combinator and component operation\<close>

subsection \<open>Exceptions inside a synchronous callback body\<close>

text \<open>
  A callback body runs synchronously; an exception thrown in it aborts the rest of the
  body. \<open>ebind r f\<close> runs \<open>f\<close> on the value of \<open>r\<close> unless \<open>r\<close> is an exception.
\<close>

fun ebind :: "'e + 'a \<Rightarrow> ('a \<Rightarrow> 'e + 'b) \<Rightarrow> 'e + 'b" where
  "ebind (Inl e) f = Inl e"
| "ebind (Inr a) f = f a"

definition emap_err :: "('e \<Rightarrow> 'f) \<Rightarrow> 'e + 'a \<Rightarrow> 'f + 'a" where
  "emap_err g r = map_sum g id r"

lemma emap_err_simps [simp]:
  "emap_err g (Inl e) = Inl (g e)"
  "emap_err g (Inr a) = Inr a"
  by (simp_all add: emap_err_def)

lemma ebind_split:
  "P (ebind r f) \<longleftrightarrow> (\<forall>e. r = Inl e \<longrightarrow> P (Inl e)) \<and> (\<forall>a. r = Inr a \<longrightarrow> P (f a))"
  by (cases r) auto

lemma ebind_eq_Inr:
  "ebind r f = Inr b \<longleftrightarrow> (\<exists>a. r = Inr a \<and> f a = Inr b)"
  by (cases r) auto

lemma emap_err_eq_Inr [simp]:
  "emap_err g r = Inr a \<longleftrightarrow> r = Inr a"
  by (cases r) auto

subsection \<open>Lists\<close>

lemma list_all2_map_Inr:
  "list_all2 (\<lambda>x v. f x = Inr v) xs vs \<longleftrightarrow> (\<forall>x\<in>set xs. \<exists>v. f x = Inr v) \<and> map f xs = map Inr vs"
  by (induction xs arbitrary: vs) (auto simp: list_all2_Cons1)

lemma list_all2_in_set2: "list_all2 P xs ys \<Longrightarrow> y \<in> set ys \<Longrightarrow> \<exists>x\<in>set xs. P x y"
  by (induction rule: list_all2_induct) auto

lemma concat_concat_map_singletons:
  "concat (concat (map (\<lambda>x. map (\<lambda>y. [f x y]) (g x)) xs)) = concat (map (\<lambda>x. map (f x) (g x)) xs)"
  by (induction xs) auto

lemma length_concat_map_const:
  "(\<forall>x\<in>set xs. length (f x) = k) \<Longrightarrow> length (concat (map f xs)) = k * length xs"
  by (induction xs) auto

lemma length_concat_map_le:
  "(\<forall>x\<in>set xs. length (f x) \<le> k) \<Longrightarrow> length (concat (map f xs)) \<le> k * length xs"
  by (induction xs) (auto simp: add_mono)

lemma set_take_drop_Suc:
  assumes "distinct xs" "i < length xs"
  shows "distinct (take i xs @ drop (Suc i) xs) \<and> set (take i xs @ drop (Suc i) xs) = set xs - {xs ! i}"
proof -
  have x: "xs = take i xs @ xs ! i # drop (Suc i) xs" using id_take_nth_drop [OF assms(2)] .
  have d: "distinct (take i xs @ xs ! i # drop (Suc i) xs)" using assms(1) x by simp
  have "set xs = set (take i xs) \<union> {xs ! i} \<union> set (drop (Suc i) xs)"
    by (subst x) auto
  with d show ?thesis by auto
qed

end
