(* ===== verification/Async.thy ===== *)
theory Async
  imports Prelude
begin

text \<open>
  A timed model of JavaScript promises on a single-threaded event loop, the execution
  model of \<^verbatim>\<open>src/scripts/db-prefill.js\<close>. A task is started at a time \<open>t\<close>
  against a network \<open>net\<close>; \<open>net t q\<close> gives the latency and the response of the
  request \<open>q\<close> issued at time \<open>t\<close>. Running a task yields an outcome: the requests
  it issued with their issue times, the time it settles and its result (a failure or a
  value). Sequencing (\<open>.then\<close>) starts the continuation when the first task settles;
  \<open>Promise.all\<close> starts all its members at once, fulfils with their values in input
  order when the last one fulfils, and rejects with the earliest failure (fail-fast);
  members that are still running are not cancelled, their requests are still issued.
\<close>

record ('q, 'f, 'a) outcome =
  o_calls :: "(nat \<times> 'q) list"
  o_time :: nat
  o_res :: "'f + 'a"

type_synonym ('q, 'r) net = "nat \<Rightarrow> 'q \<Rightarrow> nat \<times> 'r"
type_synonym ('q, 'r, 'f, 'a) task = "('q, 'r) net \<Rightarrow> nat \<Rightarrow> ('q, 'f, 'a) outcome"

subsection \<open>Combinators\<close>

definition t_lift :: "'f + 'a \<Rightarrow> ('q, 'r, 'f, 'a) task" where
  "t_lift r net t = \<lparr>o_calls = [], o_time = t, o_res = r\<rparr>"

definition t_return :: "'a \<Rightarrow> ('q, 'r, 'f, 'a) task" where
  "t_return a = t_lift (Inr a)"

text \<open>
  \<open>t_call q k\<close>: issue request \<open>q\<close> now; the callback \<open>k\<close> runs on the response
  when it arrives and settles the promise (resolve, reject, or an exception).
\<close>

definition t_call :: "'q \<Rightarrow> ('r \<Rightarrow> 'f + 'a) \<Rightarrow> ('q, 'r, 'f, 'a) task" where
  "t_call q k net t = (case net t q of (d, r) \<Rightarrow>
     \<lparr>o_calls = [(t, q)], o_time = t + d, o_res = k r\<rparr>)"

definition prepend_calls :: "(nat \<times> 'q) list \<Rightarrow> ('q, 'f, 'a) outcome \<Rightarrow> ('q, 'f, 'a) outcome" where
  "prepend_calls cs x = x\<lparr>o_calls := cs @ o_calls x\<rparr>"

text \<open>
  Sequencing: when the first task settles with a value, the continuation starts at
  that moment; a failure skips it. The settled first outcome is passed on as an
  argument, so that it is computed once.
\<close>

definition bind_out :: "('q, 'f, 'a) outcome \<Rightarrow> ('a \<Rightarrow> ('q, 'r, 'f, 'b) task) \<Rightarrow> ('q, 'r) net \<Rightarrow> ('q, 'f, 'b) outcome" where
  "bind_out o1 f net = (case o_res o1 of
      Inl e \<Rightarrow> \<lparr>o_calls = o_calls o1, o_time = o_time o1, o_res = Inl e\<rparr>
    | Inr a \<Rightarrow> prepend_calls (o_calls o1) (f a net (o_time o1)))"

definition t_bind :: "('q, 'r, 'f, 'a) task \<Rightarrow> ('a \<Rightarrow> ('q, 'r, 'f, 'b) task) \<Rightarrow> ('q, 'r, 'f, 'b) task" where
  "t_bind m f net t = bind_out (m net t) f net"

text \<open>\<open>p.then(g)\<close> with a synchronous \<open>g\<close> that may throw.\<close>

definition t_then :: "('q, 'r, 'f, 'a) task \<Rightarrow> ('a \<Rightarrow> 'f + 'b) \<Rightarrow> ('q, 'r, 'f, 'b) task" where
  "t_then m g = t_bind m (\<lambda>a. t_lift (g a))"

text \<open>
  Two settled promises joined: both values when both fulfil, at the later time;
  otherwise the failure that happened first (the lower position on a tie).
\<close>

fun settle2 :: "nat \<Rightarrow> 'f + 'a \<Rightarrow> nat \<Rightarrow> 'f + 'b \<Rightarrow> nat \<times> ('f + 'a \<times> 'b)" where
  "settle2 t1 (Inr a) t2 (Inr b) = (max t1 t2, Inr (a, b))"
| "settle2 t1 (Inl e) t2 (Inr b) = (t1, Inl e)"
| "settle2 t1 (Inr a) t2 (Inl e) = (t2, Inl e)"
| "settle2 t1 (Inl e1) t2 (Inl e2) = (if t1 \<le> t2 then (t1, Inl e1) else (t2, Inl e2))"

definition par2 :: "('q, 'f, 'a) outcome \<Rightarrow> ('q, 'f, 'b) outcome \<Rightarrow> ('q, 'f, 'a \<times> 'b) outcome" where
  "par2 o1 o2 = (case settle2 (o_time o1) (o_res o1) (o_time o2) (o_res o2) of (tm, r) \<Rightarrow>
     \<lparr>o_calls = o_calls o1 @ o_calls o2, o_time = tm, o_res = r\<rparr>)"

definition o_map :: "('a \<Rightarrow> 'b) \<Rightarrow> ('q, 'f, 'a) outcome \<Rightarrow> ('q, 'f, 'b) outcome" where
  "o_map g x = \<lparr>o_calls = o_calls x, o_time = o_time x, o_res = map_sum id g (o_res x)\<rparr>"

fun join :: "nat \<Rightarrow> ('q, 'f, 'a) outcome list \<Rightarrow> ('q, 'f, 'a list) outcome" where
  "join t [] = \<lparr>o_calls = [], o_time = t, o_res = Inr []\<rparr>"
| "join t (x # os) = o_map (\<lambda>(a, vs). a # vs) (par2 x (join t os))"

text \<open>\<open>Promise.all(ms)\<close>: every member is started at the same time.\<close>

definition t_all :: "('q, 'r, 'f, 'a) task list \<Rightarrow> ('q, 'r, 'f, 'a list) task" where
  "t_all ms net t = join t (map (\<lambda>m. m net t) ms)"

definition t_pair :: "('q, 'r, 'f, 'a) task \<Rightarrow> ('q, 'r, 'f, 'b) task \<Rightarrow> ('q, 'r, 'f, 'a \<times> 'b) task" where
  "t_pair m1 m2 net t = par2 (m1 net t) (m2 net t)"

subsection \<open>Timing well-formedness\<close>

text \<open>
  A task started at \<open>t\<close> settles no earlier than \<open>t\<close> and issues no request before
  \<open>t\<close>; a task that fulfils has issued all its requests by the time it settles
  (every fulfilled branch has waited for all its own callbacks).
\<close>

definition o_wf :: "nat \<Rightarrow> ('q, 'f, 'a) outcome \<Rightarrow> bool" where
  "o_wf t x \<longleftrightarrow> t \<le> o_time x \<and> (\<forall>c\<in>set (o_calls x). t \<le> fst c) \<and>
     (\<not> isl (o_res x) \<longrightarrow> (\<forall>c\<in>set (o_calls x). fst c \<le> o_time x))"

definition task_wf :: "('q, 'r, 'f, 'a) task \<Rightarrow> bool" where
  "task_wf m \<longleftrightarrow> (\<forall>net t. o_wf t (m net t))"

lemma t_lift_apply [task_simps]:
  "t_lift r net t = \<lparr>o_calls = [], o_time = t, o_res = r\<rparr>"
  by (simp add: t_lift_def)

lemma t_return_apply [task_simps]:
  "t_return a net t = \<lparr>o_calls = [], o_time = t, o_res = Inr a\<rparr>"
  by (simp add: t_return_def t_lift_def)

lemma t_call_apply [task_simps]:
  "t_call q k net t = \<lparr>o_calls = [(t, q)], o_time = t + fst (net t q), o_res = k (snd (net t q))\<rparr>"
  by (simp add: t_call_def split: prod.split)

lemma t_bind_apply [task_simps]:
  "t_bind m f net t =
     (case o_res (m net t) of
        Inl e \<Rightarrow> \<lparr>o_calls = o_calls (m net t), o_time = o_time (m net t), o_res = Inl e\<rparr>
      | Inr a \<Rightarrow> (f a net (o_time (m net t)))\<lparr>o_calls := o_calls (m net t) @ o_calls (f a net (o_time (m net t)))\<rparr>)"
  by (simp add: t_bind_def bind_out_def prepend_calls_def split: sum.split)

lemma t_all_apply [task_simps]:
  "t_all ms net t = join t (map (\<lambda>m. m net t) ms)"
  by (simp add: t_all_def)

lemma t_pair_apply [task_simps]:
  "t_pair m1 m2 net t = par2 (m1 net t) (m2 net t)"
  by (simp add: t_pair_def)

subsection \<open>Sequencing\<close>

lemma t_bind_Inl:
  "o_res (m net t) = Inl e \<Longrightarrow> t_bind m f net t =
     \<lparr>o_calls = o_calls (m net t), o_time = o_time (m net t), o_res = Inl e\<rparr>"
  by (simp add: t_bind_apply)

lemma t_bind_Inr:
  "o_res (m net t) = Inr a \<Longrightarrow> t_bind m f net t =
     (f a net (o_time (m net t)))\<lparr>o_calls := o_calls (m net t) @ o_calls (f a net (o_time (m net t)))\<rparr>"
  by (simp add: t_bind_apply)

lemma t_bind_res_Inr:
  "o_res (t_bind m f net t) = Inr b \<longleftrightarrow>
     (\<exists>a. o_res (m net t) = Inr a \<and> o_res (f a net (o_time (m net t))) = Inr b)"
  by (cases "o_res (m net t)") (simp_all add: t_bind_apply)

lemma t_then_res:
  "o_res (t_then m g net t) = ebind (o_res (m net t)) g"
  by (cases "o_res (m net t)") (simp_all add: t_then_def t_bind_apply t_lift_apply)

lemma t_then_calls [simp]:
  "o_calls (t_then m g net t) = o_calls (m net t)"
  by (cases "o_res (m net t)") (simp_all add: t_then_def t_bind_apply t_lift_apply)

lemma t_then_time [simp]:
  "o_time (t_then m g net t) = o_time (m net t)"
  by (cases "o_res (m net t)") (simp_all add: t_then_def t_bind_apply t_lift_apply)

subsection \<open>Promise.all: the abstract contract\<close>

lemma o_map_simps [simp]:
  "o_calls (o_map g x) = o_calls x"
  "o_time (o_map g x) = o_time x"
  "o_res (o_map g x) = map_sum id g (o_res x)"
  by (simp_all add: o_map_def)

lemma par2_simps [simp]:
  "o_calls (par2 x y) = o_calls x @ o_calls y"
  "o_time (par2 x y) = fst (settle2 (o_time x) (o_res x) (o_time y) (o_res y))"
  "o_res (par2 x y) = snd (settle2 (o_time x) (o_res x) (o_time y) (o_res y))"
  by (simp_all add: par2_def split: prod.split)

lemma settle2_isl_iff [simp]:
  "isl (snd (settle2 t1 r1 t2 r2)) \<longleftrightarrow> isl r1 \<or> isl r2"
  by (cases r1; cases r2) auto

lemma settle2_Inr_iff [simp]:
  "snd (settle2 t1 r1 t2 r2) = Inr p \<longleftrightarrow> (\<exists>a b. p = (a, b) \<and> r1 = Inr a \<and> r2 = Inr b)"
  by (cases r1; cases r2) auto

lemma t_then_isl:
  "isl (o_res (t_then m g net t)) \<longleftrightarrow> isl (o_res (m net t)) \<or> (\<exists>a. o_res (m net t) = Inr a \<and> isl (g a))"
  by (cases "o_res (m net t)") (simp_all add: t_then_res)

lemma par2_isl_iff:
  "isl (o_res (par2 x y)) \<longleftrightarrow> isl (o_res x) \<or> isl (o_res y)"
  by simp

declare join.simps(2) [simp del]

lemma join_Cons_simps [simp]:
  "o_calls (join t (x # os)) = o_calls x @ o_calls (join t os)"
  "o_time (join t (x # os)) = fst (settle2 (o_time x) (o_res x) (o_time (join t os)) (o_res (join t os)))"
  "o_res (join t (x # os)) = map_sum id (\<lambda>(a, vs). a # vs)
     (snd (settle2 (o_time x) (o_res x) (o_time (join t os)) (o_res (join t os))))"
  by (simp_all add: join.simps(2))

lemma join_calls [simp]:
  "o_calls (join t os) = concat (map o_calls os)"
  by (induction os) simp_all

lemma join_Inr_iff:
  "o_res (join t os) = Inr vs \<longleftrightarrow> list_all2 (\<lambda>x v. o_res x = Inr v) os vs"
proof (induction os arbitrary: vs)
  case Nil
  then show ?case by auto
next
  case (Cons x os)
  show ?case
    by (cases "o_res x"; cases "o_res (join t os)")
       (auto simp add: list_all2_Cons1 Cons.IH [symmetric])
qed

lemma join_all_Inr:
  "\<forall>x\<in>set os. \<not> isl (o_res x) \<Longrightarrow> o_res (join t os) = Inr (map (projr \<circ> o_res) os)"
proof (induction os)
  case Nil
  then show ?case by simp
next
  case (Cons x os)
  then show ?case by (cases "o_res x") simp_all
qed

lemma join_isl_iff:
  "isl (o_res (join t os)) \<longleftrightarrow> (\<exists>x\<in>set os. isl (o_res x))"
proof (induction os)
  case Nil
  then show ?case by simp
next
  case (Cons x os)
  then show ?case
    by (cases "o_res x"; cases "o_res (join t os)") simp_all
qed

lemma join_time_ge:
  "\<forall>x\<in>set os. t \<le> o_time x \<Longrightarrow> t \<le> o_time (join t os)"
proof (induction os)
  case Nil
  then show ?case by simp
next
  case (Cons x os)
  then show ?case
    by (cases "o_res x"; cases "o_res (join t os)") auto
qed

text \<open>On success, \<open>Promise.all\<close> settles when its last member settles.\<close>

lemma join_time_Inr:
  "\<not> isl (o_res (join t os)) \<Longrightarrow> o_time (join t os) = Max (insert t (o_time ` set os))"
proof (induction os)
  case Nil
  then show ?case by simp
next
  case (Cons x os)
  then have "\<not> isl (o_res x)" "\<not> isl (o_res (join t os))"
    using join_isl_iff [of t "x # os"] join_isl_iff [of t os] by auto
  moreover have "Max (insert t (o_time ` set (x # os))) = max (o_time x) (Max (insert t (o_time ` set os)))"
    using Max_insert [of "insert t (o_time ` set os)" "o_time x"] by (simp add: insert_commute)
  ultimately show ?case using Cons.IH
    by (cases "o_res x"; cases "o_res (join t os)") simp_all
qed

text \<open>Fail-fast: a rejected \<open>Promise.all\<close> carries the earliest failure of its members.\<close>

lemma join_Inl_earliest:
  "o_res (join t os) = Inl e \<Longrightarrow>
     \<exists>x\<in>set os. o_res x = Inl e \<and> o_time x = o_time (join t os) \<and>
        (\<forall>y\<in>set os. isl (o_res y) \<longrightarrow> o_time x \<le> o_time y)"
proof (induction os arbitrary: e)
  case Nil
  then show ?case by simp
next
  case (Cons x os)
  let ?j = "join t os"
  show ?case
  proof (cases "o_res ?j")
    case (Inl e2)
    from Cons.IH [OF Inl] obtain x2 where x2: "x2 \<in> set os" "o_res x2 = Inl e2"
      "o_time x2 = o_time ?j" "\<forall>y\<in>set os. isl (o_res y) \<longrightarrow> o_time x2 \<le> o_time y"
      by blast
    show ?thesis
    proof (cases "o_res x")
      case (Inl e1)
      with Cons.prems \<open>o_res ?j = Inl e2\<close> x2 show ?thesis
        by (cases "o_time x \<le> o_time ?j") force+
    next
      case (Inr a)
      with Cons.prems \<open>o_res ?j = Inl e2\<close> x2 show ?thesis by auto
    qed
  next
    case (Inr ws)
    then have "\<forall>y\<in>set os. \<not> isl (o_res y)"
      using join_isl_iff [of t os] by auto
    with Cons.prems Inr show ?thesis
      by (cases "o_res x") auto
  qed
qed

subsection \<open>Timing well-formedness of the combinators\<close>

lemma task_wfD:
  assumes "task_wf m"
  shows "t \<le> o_time (m net t)" "c \<in> set (o_calls (m net t)) \<Longrightarrow> t \<le> fst c"
    "\<not> isl (o_res (m net t)) \<Longrightarrow> c \<in> set (o_calls (m net t)) \<Longrightarrow> fst c \<le> o_time (m net t)"
  using assms by (auto simp: task_wf_def o_wf_def)

lemma task_wf_lift [wf_intros]: "task_wf (t_lift r)"
  by (simp add: task_wf_def o_wf_def t_lift_apply)

lemma task_wf_return [wf_intros]: "task_wf (t_return a)"
  by (simp add: t_return_def task_wf_lift)

lemma task_wf_call [wf_intros]: "task_wf (t_call q k)"
  by (simp add: task_wf_def o_wf_def t_call_apply)

lemma task_wf_bind [wf_intros]:
  assumes m: "task_wf m" and f: "\<And>a. task_wf (f a)"
  shows "task_wf (t_bind m f)"
  unfolding task_wf_def
proof (intro allI)
  fix net t
  show "o_wf t (t_bind m f net t)"
  proof (cases "o_res (m net t)")
    case (Inl e)
    with task_wfD [OF m] show ?thesis by (auto simp: o_wf_def t_bind_Inl)
  next
    case (Inr a)
    let ?t1 = "o_time (m net t)"
    have "o_wf ?t1 (f a net ?t1)" using f by (simp add: task_wf_def)
    moreover have "t \<le> ?t1" by (rule task_wfD(1) [OF m])
    moreover have "\<forall>c\<in>set (o_calls (m net t)). t \<le> fst c \<and> fst c \<le> ?t1"
      using task_wfD(2,3) [OF m] Inr by auto
    ultimately show ?thesis using Inr
      by (fastforce simp: o_wf_def t_bind_Inr)
  qed
qed

lemma task_wf_then [wf_intros]: "task_wf m \<Longrightarrow> task_wf (t_then m g)"
  by (simp add: t_then_def task_wf_bind task_wf_lift)

lemma o_wf_join:
  assumes "\<forall>x\<in>set os. o_wf t x"
  shows "o_wf t (join t os)"
proof -
  have ge: "t \<le> o_time (join t os)"
    using assms by (intro join_time_ge) (simp add: o_wf_def)
  have calls: "\<forall>c\<in>set (o_calls (join t os)). t \<le> fst c"
    using assms by (auto simp: o_wf_def)
  have "\<forall>c\<in>set (o_calls (join t os)). fst c \<le> o_time (join t os)"
    if ok: "\<not> isl (o_res (join t os))"
  proof
    fix c assume "c \<in> set (o_calls (join t os))"
    then obtain x where x: "x \<in> set os" "c \<in> set (o_calls x)" by auto
    with ok have "\<not> isl (o_res x)" using join_isl_iff [of t os] by auto
    with x assms have "fst c \<le> o_time x" by (auto simp: o_wf_def)
    also have "o_time x \<le> Max (insert t (o_time ` set os))" using x by simp
    also have "\<dots> = o_time (join t os)" using join_time_Inr [OF ok] by simp
    finally show "fst c \<le> o_time (join t os)" .
  qed
  with ge calls show ?thesis by (simp add: o_wf_def)
qed

lemma task_wf_all [wf_intros]: "\<forall>m\<in>set ms. task_wf m \<Longrightarrow> task_wf (t_all ms)"
  by (auto simp: task_wf_def t_all_apply intro!: o_wf_join)

lemma task_wf_pair [wf_intros]:
  assumes "task_wf m1" "task_wf m2"
  shows "task_wf (t_pair m1 m2)"
  unfolding task_wf_def
proof (intro allI)
  fix net t
  have "o_wf t (m1 net t)" "o_wf t (m2 net t)" using assms by (simp_all add: task_wf_def)
  then show "o_wf t (t_pair m1 m2 net t)"
    by (cases "o_res (m1 net t)"; cases "o_res (m2 net t)")
       (auto simp: o_wf_def t_pair_apply max.coboundedI1 max.coboundedI2)
qed

end
