(* ===== verification/Json.thy ===== *)
theory Json
  imports Prelude
begin

text \<open>
  The JavaScript values the prefill script handles: parsed JSON response bodies, the
  value \<open>undefined\<close>, property access (which throws a TypeError on \<open>undefined\<close>
  and \<open>null\<close>), truthiness as tested by \<open>if (json_resp.error)\<close>, \<open>JSON.parse\<close>
  (which throws a SyntaxError on text that is not JSON), and the decimal printing of a
  non-negative integer used when the script builds e-mail addresses
  (\<^verbatim>\<open>'test' + i + '@test.com'\<close>), with its parsing inverse.
\<close>

datatype jval =
    JNull
  | JBool bool
  | JNum int
  | JStr string
  | JArr "jval list"
  | JObj "(string \<times> jval) list"

text \<open>A JavaScript value read from JSON: \<open>None\<close> is \<open>undefined\<close>.\<close>

type_synonym jsval = "jval option"

datatype exn = SyntaxError | TypeError

text \<open>A raw response body: JSON text (kept parsed) or text that \<open>JSON.parse\<close> rejects.\<close>

datatype body = JSON jval | NotJSON string

definition json_parse :: "body \<Rightarrow> exn + jval" where
  "json_parse b = (case b of JSON j \<Rightarrow> Inr j | NotJSON s \<Rightarrow> Inl SyntaxError)"

text \<open>
  \<open>v.k\<close>. \<open>JSON.parse\<close> keeps the last of duplicated keys, hence the lookup in the
  reversed association list. Strings and arrays have a \<open>length\<close>; every other
  property of a primitive is \<open>undefined\<close>.
\<close>

fun get_prop :: "jsval \<Rightarrow> string \<Rightarrow> exn + jsval" where
  "get_prop None k = Inl TypeError"
| "get_prop (Some JNull) k = Inl TypeError"
| "get_prop (Some (JObj fs)) k = Inr (map_of (rev fs) k)"
| "get_prop (Some (JArr xs)) k = Inr (if k = ''length'' then Some (JNum (int (length xs))) else None)"
| "get_prop (Some (JStr s)) k = Inr (if k = ''length'' then Some (JNum (int (length s))) else None)"
| "get_prop (Some (JBool b)) k = Inr None"
| "get_prop (Some (JNum n)) k = Inr None"

fun truthy :: "jsval \<Rightarrow> bool" where
  "truthy None = False"
| "truthy (Some JNull) = False"
| "truthy (Some (JBool b)) = b"
| "truthy (Some (JNum n)) = (n \<noteq> 0)"
| "truthy (Some (JStr s)) = (s \<noteq> [])"
| "truthy (Some (JArr xs)) = True"
| "truthy (Some (JObj fs)) = True"

lemma json_parse_simps [simp]:
  "json_parse (JSON j) = Inr j"
  "json_parse (NotJSON s) = Inl SyntaxError"
  by (simp_all add: json_parse_def)

lemma json_parse_Inr_iff [simp]: "json_parse b = Inr j \<longleftrightarrow> b = JSON j"
  by (cases b) simp_all

lemma get_prop_Inr_iff:
  "(\<exists>w. get_prop v k = Inr w) \<longleftrightarrow> v \<noteq> None \<and> v \<noteq> Some JNull"
  by (cases "(v, k)" rule: get_prop.cases) auto

lemma get_prop_defined: "get_prop v k = Inr w \<Longrightarrow> v \<noteq> None \<and> v \<noteq> Some JNull"
  using get_prop_Inr_iff by blast

lemma get_prop_obj_Inr [simp]:
  "get_prop (Some (JObj fs)) k = Inr w \<longleftrightarrow> w = map_of (rev fs) k"
  by auto

subsection \<open>Printing a non-negative integer\<close>

text \<open>\<open>String(i)\<close> for a non-negative integer \<open>i\<close>: decimal digits, no leading zero.\<close>

fun nat_str :: "nat \<Rightarrow> string" where
  "nat_str n = (if n < 10 then [char_of (48 + n)] else nat_str (n div 10) @ [char_of (48 + n mod 10)])"

declare nat_str.simps [simp del]

definition nat_of_str :: "string \<Rightarrow> nat" where
  "nat_of_str s = foldl (\<lambda>acc c. 10 * acc + (of_char c - 48)) 0 s"

lemma nat_of_str_snoc:
  "nat_of_str (s @ [c]) = 10 * nat_of_str s + (of_char c - 48)"
  by (simp add: nat_of_str_def)

lemma nat_str_nonempty: "nat_str n \<noteq> []"
  by (subst nat_str.simps) simp

lemma nat_str_digits: "\<forall>c\<in>set (nat_str n). (48::nat) \<le> of_char c \<and> of_char c < (58::nat)"
proof (induction n rule: nat_str.induct)
  case (1 n)
  show ?case
  proof (cases "n < 10")
    case True
    then show ?thesis by (subst nat_str.simps) simp
  next
    case False
    with "1.IH" show ?thesis by (subst nat_str.simps) simp
  qed
qed

text \<open>Printing then parsing gives the number back, so distinct indices print differently.\<close>

lemma nat_of_str_nat_str: "nat_of_str (nat_str n) = n"
proof (induction n rule: nat_str.induct)
  case (1 n)
  show ?case
  proof (cases "n < 10")
    case True
    then show ?thesis by (subst nat_str.simps) (simp add: nat_of_str_def)
  next
    case False
    have "nat_of_str (nat_str n) = 10 * nat_of_str (nat_str (n div 10)) + (of_char (char_of (48 + n mod 10)) - 48)"
      using False by (subst nat_str.simps) (simp add: nat_of_str_snoc)
    also have "\<dots> = 10 * (n div 10) + n mod 10"
      using "1.IH" False by simp
    finally show ?thesis by simp
  qed
qed

lemma inj_nat_str: "inj nat_str"
  by (rule inj_on_inverseI [of _ nat_of_str]) (rule nat_of_str_nat_str)

subsection \<open>Conversion to a string\<close>

text \<open>
  \<open>String(v)\<close>, as used by \<open>'prefix' + v\<close>: \<open>undefined\<close> and \<open>null\<close> print
  their names, an array joins its elements with commas (a \<open>null\<close> element prints
  empty), an object prints \<open>[object Object]\<close>.
\<close>

definition int_str :: "int \<Rightarrow> string" where
  "int_str i = (if i < 0 then ''-'' @ nat_str (nat (- i)) else nat_str (nat i))"

fun join_sep :: "string \<Rightarrow> string list \<Rightarrow> string" where
  "join_sep sep [] = []"
| "join_sep sep [s] = s"
| "join_sep sep (s # ss) = s @ sep @ join_sep sep ss"

fun js_str :: "jval \<Rightarrow> string" where
  "js_str JNull = ''null''"
| "js_str (JBool b) = (if b then ''true'' else ''false'')"
| "js_str (JNum n) = int_str n"
| "js_str (JStr s) = s"
| "js_str (JArr xs) = join_sep '','' (map (\<lambda>x. if x = JNull then [] else js_str x) xs)"
| "js_str (JObj fs) = ''[object Object]''"

fun js_string :: "jsval \<Rightarrow> string" where
  "js_string None = ''undefined''"
| "js_string (Some v) = js_str v"

end
