(* ===== verification/Wire.thy ===== *)
theory Wire
  imports Async Json
begin

text \<open>
  The requests the prefill script sends (one constructor per call site of
  \<^verbatim>\<open>request.post\<close> in \<^verbatim>\<open>src/scripts/db-prefill.js\<close>, plus the Redis flush), the
  responses the request library hands to a callback (a transport error or a body), and
  the ways a promise of the script can fail: a rejection with the reason the code
  passes to \<open>reject\<close>, or an exception thrown inside a request callback, which no
  promise catches and which ends the process.
\<close>

datatype request =
    Generate string                 \<comment> \<open>PERSONA_ENDPOINT/generate, form \<open>{email}\<close>\<close>
  | Login jsval string              \<comment> \<open>/user/login, form \<open>{assertion, audience}\<close>\<close>
  | FriendRequest jsval jsval       \<comment> \<open>/user/friends/request, form \<open>{_user, recipient}\<close>\<close>
  | FriendAccept jsval jsval        \<comment> \<open>/user/friends/accept, form \<open>{_user, acceptee}\<close>\<close>
  | GameSubmit "(string \<times> string) list" \<comment> \<open>/game/submit, the game's form fields\<close>
  | Purchase jsval jsval            \<comment> \<open>/user/purchase, form \<open>{_user, game}\<close>\<close>
  | FlushDb                         \<comment> \<open>Redis FLUSHDB\<close>

datatype response = ConnError string | Resp body

datatype reason =
    AssertionConnFailed             \<comment> \<open>'Connection to assertion generator failed'\<close>
  | LoginConnFailed                 \<comment> \<open>'Galaxy login failed.'\<close>
  | LoginError jsval                \<comment> \<open>'Galaxy login failed: ' + json_resp.error\<close>
  | TransportErr string             \<comment> \<open>the request library's \<open>err\<close>\<close>
  | FriendReqError jsval            \<comment> \<open>json_resp.error of a friend request\<close>
  | AcceptError jsval               \<comment> \<open>'Friend accept failed: ' + json_resp.error\<close>
  | Thrown exn                      \<comment> \<open>an exception thrown in a \<open>.then\<close> handler\<close>

datatype failure = Rej reason | Crash exn

type_synonym 'a ptask = "(request, response, failure, 'a) task"
type_synonym pnet = "(request, response) net"
type_synonym 'a poutcome = "(request, failure, 'a) outcome"

definition API_ENDPOINT :: string where
  "API_ENDPOINT = ''http://localhost:5000''"

definition PERSONA_ENDPOINT :: string where
  "PERSONA_ENDPOINT = ''http://localhost:9001''"

text \<open>The URL (or Redis command) each request goes to, as written at its call site.\<close>

fun endpoint :: "request \<Rightarrow> string" where
  "endpoint (Generate e) = PERSONA_ENDPOINT @ ''/generate''"
| "endpoint (Login a aud) = API_ENDPOINT @ ''/user/login''"
| "endpoint (FriendRequest u r) = API_ENDPOINT @ ''/user/friends/request''"
| "endpoint (FriendAccept u a) = API_ENDPOINT @ ''/user/friends/accept''"
| "endpoint (GameSubmit f) = API_ENDPOINT @ ''/game/submit''"
| "endpoint (Purchase u g) = API_ENDPOINT @ ''/user/purchase''"
| "endpoint FlushDb = ''redis:flushdb''"

text \<open>An exception in a request callback escapes every promise: the process crashes.\<close>

definition in_callback :: "exn + 'a \<Rightarrow> failure + 'a" where
  "in_callback r = emap_err Crash r"

text \<open>An exception in a \<open>.then\<close> handler rejects the derived promise.\<close>

definition in_then :: "exn + 'a \<Rightarrow> failure + 'a" where
  "in_then r = emap_err (\<lambda>ex. Rej (Thrown ex)) r"

definition is_conn_error :: "response \<Rightarrow> bool" where
  "is_conn_error r = (case r of ConnError e \<Rightarrow> True | Resp b \<Rightarrow> False)"

text \<open>
  Sample networks for the concrete scenarios: every request answered after one time
  unit with a well-formed body, and the same network with one request's answer
  replaced.
\<close>

definition happy_body :: "request \<Rightarrow> jval" where
  "happy_body q = (case q of
      Generate e \<Rightarrow> JObj [(''assertion'', JStr e)]
    | Login a aud \<Rightarrow> JObj [(''token'', JStr ''ssa''),
        (''public'', JObj [(''id'', JNum 1), (''username'', JStr ''test'')])]
    | GameSubmit form \<Rightarrow> JObj [(''slug'', JStr (case map_of form ''name'' of Some n \<Rightarrow> n | None \<Rightarrow> ''''))]
    | _ \<Rightarrow> JObj [(''success'', JBool True)])"

definition happy_net :: pnet where
  "happy_net s q = (1, Resp (JSON (happy_body q)))"

definition net_with :: "pnet \<Rightarrow> request \<Rightarrow> response \<Rightarrow> pnet" where
  "net_with net q r = (\<lambda>s q'. if q' = q then (fst (net s q'), r) else net s q')"

lemma endpoint_Generate_iff: "endpoint q = PERSONA_ENDPOINT @ ''/generate'' \<longleftrightarrow> (\<exists>e. q = Generate e)"
  by (cases q) (simp_all add: API_ENDPOINT_def PERSONA_ENDPOINT_def)

lemma endpoint_FriendRequest_iff:
  "endpoint q = API_ENDPOINT @ ''/user/friends/request'' \<longleftrightarrow> (\<exists>u r. q = FriendRequest u r)"
  by (cases q) (simp_all add: API_ENDPOINT_def PERSONA_ENDPOINT_def)

lemma endpoint_FriendAccept_iff:
  "endpoint q = API_ENDPOINT @ ''/user/friends/accept'' \<longleftrightarrow> (\<exists>u a. q = FriendAccept u a)"
  by (cases q) (simp_all add: API_ENDPOINT_def PERSONA_ENDPOINT_def)

lemma endpoint_Purchase_iff:
  "endpoint q = API_ENDPOINT @ ''/user/purchase'' \<longleftrightarrow> (\<exists>u g. q = Purchase u g)"
  by (cases q) (simp_all add: API_ENDPOINT_def PERSONA_ENDPOINT_def)

lemma in_callback_simps [simp]:
  "in_callback (Inl ex) = Inl (Crash ex)"
  "in_callback (Inr a) = Inr a"
  by (simp_all add: in_callback_def)

lemma in_callback_eq_Inr [simp]: "in_callback r = Inr a \<longleftrightarrow> r = Inr a"
  by (simp add: in_callback_def)

lemma in_then_eq_Inr [simp]: "in_then r = Inr a \<longleftrightarrow> r = Inr a"
  by (simp add: in_then_def)

lemma in_then_simps [simp]:
  "in_then (Inl ex) = Inl (Rej (Thrown ex))"
  "in_then (Inr a) = Inr a"
  by (simp_all add: in_then_def)

end
