(* ===== verification/Users.thy ===== *)
theory Users
  imports Wire
begin

text \<open>
  The user factory of \<^verbatim>\<open>createUsers\<close> (\<^verbatim>\<open>src/scripts/db-prefill.js\<close>, lines 48--104):
  \<^verbatim>\<open>createUser\<close> asks the assertion generator for a credential for an e-mail address,
  \<^verbatim>\<open>login\<close> exchanges it for a session, and \<^verbatim>\<open>createUsers\<close> starts the chain
  \<^verbatim>\<open>createUser(email).then(login)\<close> for every index below \<^verbatim>\<open>USER_COUNT\<close> at once and joins
  on all of them with \<^verbatim>\<open>Promise.all\<close>.
\<close>

record email_assertion =
  ea_email :: string
  ea_assertion :: jsval

record user =
  u_email :: string
  u_token :: jsval
  u_username :: jsval
  u_id :: jsval

definition USER_COUNT :: nat where
  "USER_COUNT = 100"

definition user_email :: "nat \<Rightarrow> string" where
  "user_email i = ''test'' @ nat_str i @ ''@test.com''"

text \<open>The callback of the \<^verbatim>\<open>/generate\<close> request (lines 56--64).\<close>

definition createUser_cb :: "string \<Rightarrow> response \<Rightarrow> failure + email_assertion" where
  "createUser_cb email r = (case r of
      ConnError e \<Rightarrow> Inl (Rej AssertionConnFailed)
    | Resp b \<Rightarrow> in_callback (ebind (json_parse b) (\<lambda>j.
        ebind (get_prop (Some j) ''assertion'') (\<lambda>a.
          Inr \<lparr>ea_email = email, ea_assertion = a\<rparr>))))"

definition createUser :: "string \<Rightarrow> email_assertion ptask" where
  "createUser email = t_call (Generate email) (createUser_cb email)"

text \<open>The callback of the \<^verbatim>\<open>/user/login\<close> request (lines 78--95).\<close>

definition login_cb :: "string \<Rightarrow> response \<Rightarrow> failure + user" where
  "login_cb email r = (case r of
      ConnError e \<Rightarrow> Inl (Rej LoginConnFailed)
    | Resp b \<Rightarrow> ebind (in_callback (json_parse b)) (\<lambda>j.
        ebind (in_callback (get_prop (Some j) ''error'')) (\<lambda>err.
          if truthy err then Inl (Rej (LoginError err))
          else in_callback (ebind (get_prop (Some j) ''token'') (\<lambda>tok.
            ebind (get_prop (Some j) ''public'') (\<lambda>pub.
            ebind (get_prop pub ''username'') (\<lambda>name.
            ebind (get_prop pub ''id'') (\<lambda>uid.
              Inr \<lparr>u_email = email, u_token = tok, u_username = name, u_id = uid\<rparr>))))))))"

definition login :: "email_assertion \<Rightarrow> user ptask" where
  "login ea = t_call (Login (ea_assertion ea) API_ENDPOINT) (login_cb (ea_email ea))"

definition user_chain :: "nat \<Rightarrow> user ptask" where
  "user_chain i = t_bind (createUser (user_email i)) login"

definition createUsers :: "nat \<Rightarrow> user list ptask" where
  "createUsers n = t_all (map user_chain [0..<n])"

text \<open>Responses on which the two callbacks resolve.\<close>

definition gen_ok :: "response \<Rightarrow> bool" where
  "gen_ok r = (case r of Resp (JSON j) \<Rightarrow> j \<noteq> JNull | _ \<Rightarrow> False)"

definition login_ok :: "response \<Rightarrow> bool" where
  "login_ok r = (case r of
      Resp (JSON j) \<Rightarrow> j \<noteq> JNull \<and>
        (case get_prop (Some j) ''error'' of Inr err \<Rightarrow> \<not> truthy err | Inl ex \<Rightarrow> False) \<and>
        (case get_prop (Some j) ''public'' of Inr pub \<Rightarrow> pub \<noteq> None \<and> pub \<noteq> Some JNull | Inl ex \<Rightarrow> False)
    | _ \<Rightarrow> False)"

text \<open>The chain of user \<open>i\<close> started at \<open>t\<close> resolves.\<close>

definition user_chain_ok :: "pnet \<Rightarrow> nat \<Rightarrow> nat \<Rightarrow> bool" where
  "user_chain_ok net t i = (case net t (Generate (user_email i)) of (d, r) \<Rightarrow>
     (case createUser_cb (user_email i) r of
        Inl e \<Rightarrow> False
      | Inr ea \<Rightarrow> login_ok (snd (net (t + d) (Login (ea_assertion ea) API_ENDPOINT)))))"

lemma gen_ok_iff: "gen_ok r \<longleftrightarrow> (\<exists>j. r = Resp (JSON j) \<and> j \<noteq> JNull)"
  by (auto simp: gen_ok_def split: response.splits body.splits)

lemma createUser_cb_ok:
  assumes "gen_ok r"
  shows "\<exists>a. createUser_cb email r = Inr \<lparr>ea_email = email, ea_assertion = a\<rparr>"
proof -
  from assms obtain j where r: "r = Resp (JSON j)" "j \<noteq> JNull" by (auto simp: gen_ok_iff)
  then obtain a where "get_prop (Some j) ''assertion'' = Inr a"
    using get_prop_Inr_iff [of "Some j" "''assertion''"] by auto
  with r show ?thesis by (simp add: createUser_cb_def)
qed

lemma createUser_cb_Inr_ok:
  assumes "createUser_cb email r = Inr ea"
  shows "gen_ok r"
proof -
  from assms obtain b where r: "r = Resp b" by (cases r) (simp_all add: createUser_cb_def)
  with assms obtain j a where "b = JSON j" "get_prop (Some j) ''assertion'' = Inr a"
    by (auto simp: createUser_cb_def ebind_eq_Inr)
  with r show ?thesis using get_prop_defined by (auto simp: gen_ok_iff)
qed

lemma createUser_cb_not_ok:
  "\<not> gen_ok r \<Longrightarrow> isl (createUser_cb email r)"
  using createUser_cb_Inr_ok by (cases "createUser_cb email r") auto

lemma login_ok_iff:
  "login_ok r \<longleftrightarrow> (\<exists>j err pub. r = Resp (JSON j) \<and> j \<noteq> JNull \<and>
     get_prop (Some j) ''error'' = Inr err \<and> \<not> truthy err \<and>
     get_prop (Some j) ''public'' = Inr pub \<and> pub \<noteq> None \<and> pub \<noteq> Some JNull)"
  by (auto simp: login_ok_def split: response.splits body.splits sum.splits)

lemma login_cb_ok:
  assumes "login_ok r"
  shows "\<exists>u. login_cb email r = Inr u \<and> u_email u = email"
proof -
  from assms obtain j err pub where r: "r = Resp (JSON j)" "j \<noteq> JNull"
    and err: "get_prop (Some j) ''error'' = Inr err" "\<not> truthy err"
    and pub: "get_prop (Some j) ''public'' = Inr pub" "pub \<noteq> None" "pub \<noteq> Some JNull"
    by (auto simp: login_ok_iff)
  obtain tok where tok: "get_prop (Some j) ''token'' = Inr tok"
    using r(2) get_prop_Inr_iff [of "Some j" "''token''"] by auto
  obtain name where name: "get_prop pub ''username'' = Inr name"
    using pub get_prop_Inr_iff [of pub "''username''"] by auto
  obtain uid where uid: "get_prop pub ''id'' = Inr uid"
    using pub get_prop_Inr_iff [of pub "''id''"] by auto
  from r err pub tok name uid show ?thesis by (simp add: login_cb_def)
qed

lemma login_cb_Inr_ok:
  assumes "login_cb email r = Inr u"
  shows "login_ok r"
proof -
  from assms obtain b where r: "r = Resp b" by (cases r) (simp_all add: login_cb_def)
  with assms obtain j where j: "b = JSON j" by (cases b) (simp_all add: login_cb_def)
  from assms r j obtain err where err: "get_prop (Some j) ''error'' = Inr err" "\<not> truthy err"
    by (auto simp: login_cb_def ebind_eq_Inr split: if_splits)
  from assms r j err obtain pub name where pub: "get_prop (Some j) ''public'' = Inr pub"
    and name: "get_prop pub ''username'' = Inr name"
    by (auto simp: login_cb_def ebind_eq_Inr)
  from err(1) have "j \<noteq> JNull" using get_prop_defined by blast
  with r j err pub get_prop_defined [OF name] show ?thesis by (auto simp: login_ok_iff)
qed

lemma login_cb_not_ok:
  "\<not> login_ok r \<Longrightarrow> isl (login_cb email r)"
  using login_cb_Inr_ok by (cases "login_cb email r") auto

lemma user_email_eq_iff: "user_email i = user_email j \<longleftrightarrow> i = j"
  using inj_nat_str by (auto simp: user_email_def inj_eq)

lemma distinct_user_emails: "distinct (map user_email [0..<n])"
  by (simp add: distinct_map inj_on_def user_email_eq_iff)

lemma createUser_apply [task_simps]:
  "createUser email net t = \<lparr>o_calls = [(t, Generate email)], o_time = t + fst (net t (Generate email)),
     o_res = createUser_cb email (snd (net t (Generate email)))\<rparr>"
  by (simp add: createUser_def t_call_apply)

lemma login_apply [task_simps]:
  "login ea net t = \<lparr>o_calls = [(t, Login (ea_assertion ea) API_ENDPOINT)],
     o_time = t + fst (net t (Login (ea_assertion ea) API_ENDPOINT)),
     o_res = login_cb (ea_email ea) (snd (net t (Login (ea_assertion ea) API_ENDPOINT)))\<rparr>"
  by (simp add: login_def t_call_apply)

lemma createUser_cb_email: "createUser_cb email r = Inr ea \<Longrightarrow> ea_email ea = email"
  by (auto simp: createUser_cb_def ebind_eq_Inr split: response.splits)

lemma login_cb_email: "login_cb email r = Inr u \<Longrightarrow> u_email u = email"
  by (auto simp: login_cb_def ebind_eq_Inr split: response.splits if_splits)

lemma user_chain_calls:
  "o_calls (user_chain i net t) = (t, Generate (user_email i)) #
     (case createUser_cb (user_email i) (snd (net t (Generate (user_email i)))) of
        Inl e \<Rightarrow> []
      | Inr ea \<Rightarrow> [(t + fst (net t (Generate (user_email i))), Login (ea_assertion ea) API_ENDPOINT)])"
  by (simp add: user_chain_def t_bind_apply createUser_apply login_apply split: sum.split)

lemma user_chain_res_Inr:
  "o_res (user_chain i net t) = Inr u \<longleftrightarrow>
     (\<exists>ea. createUser_cb (user_email i) (snd (net t (Generate (user_email i)))) = Inr ea \<and>
        login_cb (ea_email ea) (snd (net (t + fst (net t (Generate (user_email i))))
          (Login (ea_assertion ea) API_ENDPOINT))) = Inr u)"
  by (simp add: user_chain_def t_bind_res_Inr createUser_apply login_apply)

lemma user_chain_ok_iff: "\<not> isl (o_res (user_chain i net t)) \<longleftrightarrow> user_chain_ok net t i"
proof
  assume "\<not> isl (o_res (user_chain i net t))"
  then obtain u where "o_res (user_chain i net t) = Inr u" by (cases "o_res (user_chain i net t)") auto
  then show "user_chain_ok net t i"
    by (auto simp: user_chain_res_Inr user_chain_ok_def login_cb_Inr_ok split: prod.split)
next
  assume ok: "user_chain_ok net t i"
  then obtain ea where ea: "createUser_cb (user_email i) (snd (net t (Generate (user_email i)))) = Inr ea"
    by (auto simp: user_chain_ok_def split: prod.splits sum.splits)
  with ok have "login_ok (snd (net (t + fst (net t (Generate (user_email i)))) (Login (ea_assertion ea) API_ENDPOINT)))"
    by (auto simp: user_chain_ok_def split: prod.splits)
  then obtain u where "login_cb (ea_email ea) (snd (net (t + fst (net t (Generate (user_email i)))) (Login (ea_assertion ea) API_ENDPOINT))) = Inr u"
    using login_cb_ok by blast
  with ea show "\<not> isl (o_res (user_chain i net t))"
    using user_chain_res_Inr [of i net t u] by auto
qed

lemma user_chain_email:
  "o_res (user_chain i net t) = Inr u \<Longrightarrow> u_email u = user_email i"
  by (auto simp: user_chain_res_Inr dest!: createUser_cb_email login_cb_email)

lemma user_chain_ok_intro:
  assumes "gen_ok (snd (net t (Generate (user_email i))))"
    and "\<forall>s a. login_ok (snd (net s (Login a API_ENDPOINT)))"
  shows "user_chain_ok net t i"
  using createUser_cb_ok [OF assms(1), of "user_email i"] assms(2)
  by (auto simp: user_chain_ok_def split: prod.split)

lemma createUsers_apply:
  "createUsers n net t = join t (map (\<lambda>i. user_chain i net t) [0..<n])"
  by (simp add: createUsers_def t_all_apply comp_def)

lemma user_chain_calls_length: "length (o_calls (user_chain i net t)) \<le> 2"
  by (simp add: user_chain_calls split: sum.split)

lemma user_chain_generates:
  "filter (\<lambda>q. endpoint q = PERSONA_ENDPOINT @ ''/generate'') (map snd (o_calls (user_chain i net t))) =
     [Generate (user_email i)]"
  by (simp add: user_chain_calls endpoint_Generate_iff split: sum.split)

lemma task_wf_createUsers [wf_intros]: "task_wf (createUsers n)"
  by (auto simp: createUsers_def user_chain_def createUser_def login_def
      intro!: task_wf_all task_wf_bind task_wf_call)

lemma createUsers_endpoints:
  "c \<in> set (o_calls (createUsers n net t)) \<Longrightarrow>
     endpoint (snd c) \<in> {PERSONA_ENDPOINT @ ''/generate'', API_ENDPOINT @ ''/user/login''}"
  by (auto simp: createUsers_apply user_chain_calls split: sum.splits)

text \<open>
  C1: when every assertion request resolves and every login response is well-formed
  and error-free, \<open>createUsers n\<close> resolves with exactly \<open>n\<close> sessions whose e-mail
  addresses are \<open>test0@test.com\<close>, \<open>test1@test.com\<close>, \<dots> in index order, hence
  pairwise distinct.
\<close>

theorem createUsers_success:
  assumes gen: "\<forall>i<n. gen_ok (snd (net t (Generate (user_email i))))"
    and log: "\<forall>s a. login_ok (snd (net s (Login a API_ENDPOINT)))"
  shows "\<exists>us. o_res (createUsers n net t) = Inr us \<and> length us = n \<and>
     map u_email us = map user_email [0..<n] \<and> distinct (map u_email us)"
proof -
  let ?os = "map (\<lambda>i. user_chain i net t) [0..<n]"
  have ok: "\<forall>x\<in>set ?os. \<not> isl (o_res x)"
    using gen log user_chain_ok_intro user_chain_ok_iff by auto
  let ?us = "map (projr \<circ> o_res) ?os"
  have res: "o_res (createUsers n net t) = Inr ?us"
    using join_all_Inr [OF ok] by (simp add: createUsers_apply)
  have "u_email (projr (o_res (user_chain i net t))) = user_email i" if "i < n" for i
  proof -
    from ok that have "\<not> isl (o_res (user_chain i net t))" by auto
    then obtain u where "o_res (user_chain i net t) = Inr u"
      by (cases "o_res (user_chain i net t)") auto
    then show ?thesis using user_chain_email by simp
  qed
  then have emails: "map u_email ?us = map user_email [0..<n]" by simp
  show ?thesis
  proof (intro exI conjI)
    show "o_res (createUsers n net t) = Inr ?us" by (rule res)
    show "length ?us = n" by simp
    show "map u_email ?us = map user_email [0..<n]" by (rule emails)
    show "distinct (map u_email ?us)" unfolding emails by (rule distinct_user_emails)
  qed
qed

theorem createUsers_success_witness:
  "(\<forall>e. gen_ok (snd (happy_net 0 (Generate e)))) \<and>
   (\<forall>s a. login_ok (snd (happy_net s (Login a API_ENDPOINT)))) \<and>
   (\<exists>us. o_res (createUsers 3 happy_net 0) = Inr us \<and> length us = 3 \<and>
      map u_email us = map user_email [0..<3] \<and> distinct (map u_email us))"
proof -
  have gen_all: "\<forall>e. gen_ok (snd (happy_net 0 (Generate e)))"
    by (simp add: happy_net_def happy_body_def gen_ok_def)
  then have gen: "\<forall>i<3. gen_ok (snd (happy_net 0 (Generate (user_email i))))"
    by blast
  have log: "\<forall>s a. login_ok (snd (happy_net s (Login a API_ENDPOINT)))"
    by (simp add: happy_net_def happy_body_def login_ok_def)
  show ?thesis using createUsers_success [OF gen log] gen_all log by blast
qed

text \<open>
  C2: fail-fast. \<open>createUsers n\<close> rejects exactly when the chain
  \<open>createUser(email).then(login)\<close> of some identity below \<open>n\<close> fails; a single failed
  assertion or login request suffices.
\<close>

theorem createUsers_fails_iff:
  "isl (o_res (createUsers n net t)) \<longleftrightarrow> (\<exists>i<n. \<not> user_chain_ok net t i)"
  by (auto simp: createUsers_apply join_isl_iff user_chain_ok_iff [symmetric])

theorem createUsers_fails_iff_witness:
  "isl (o_res (createUsers 3 (net_with happy_net (Generate (user_email 1)) (ConnError ''refused'')) 0)) \<and>
   \<not> user_chain_ok (net_with happy_net (Generate (user_email 1)) (ConnError ''refused'')) 0 1"
proof -
  have "\<not> user_chain_ok (net_with happy_net (Generate (user_email 1)) (ConnError ''refused'')) 0 1"
    by code_simp
  then show ?thesis
    using createUsers_fails_iff [of 3 "net_with happy_net (Generate (user_email 1)) (ConnError ''refused'')" 0]
    by auto
qed

text \<open>
  C3: the batch rejects with the failure of the identity whose chain failed first, at
  the time that chain failed; the chains still running are not awaited.
\<close>

theorem createUsers_first_failure:
  assumes "o_res (createUsers n net t) = Inl e"
  shows "\<exists>i<n. o_res (user_chain i net t) = Inl e \<and> o_time (user_chain i net t) = o_time (createUsers n net t) \<and>
     (\<forall>j<n. \<not> user_chain_ok net t j \<longrightarrow> o_time (user_chain i net t) \<le> o_time (user_chain j net t))"
proof -
  from join_Inl_earliest [of t "map (\<lambda>i. user_chain i net t) [0..<n]" e] assms
  obtain i where "i < n" "o_res (user_chain i net t) = Inl e"
    "o_time (user_chain i net t) = o_time (createUsers n net t)"
    "\<forall>j<n. isl (o_res (user_chain j net t)) \<longrightarrow> o_time (user_chain i net t) \<le> o_time (user_chain j net t)"
    by (auto simp: createUsers_apply)
  then show ?thesis using user_chain_ok_iff by blast
qed

theorem createUsers_first_failure_witness:
  "o_res (createUsers 3 (net_with happy_net (Generate (user_email 1)) (ConnError ''refused'')) 0) = Inl (Rej AssertionConnFailed) \<and>
   (\<exists>i<3. o_res (user_chain i (net_with happy_net (Generate (user_email 1)) (ConnError ''refused'')) 0) = Inl (Rej AssertionConnFailed))"
proof -
  have f: "o_res (createUsers 3 (net_with happy_net (Generate (user_email 1)) (ConnError ''refused'')) 0) = Inl (Rej AssertionConnFailed)"
    by code_simp
  show ?thesis using createUsers_first_failure [OF f] f by blast
qed

text \<open>
  C4: \<open>createUsers n\<close> sends exactly one assertion request per identity, for the
  addresses \<open>test0@test.com\<close> \<dots> in index order, and at most one login per identity.
\<close>

theorem createUsers_requests:
  "filter (\<lambda>q. endpoint q = PERSONA_ENDPOINT @ ''/generate'') (map snd (o_calls (createUsers n net t))) =
     map (\<lambda>i. Generate (user_email i)) [0..<n] \<and>
   length (o_calls (createUsers n net t)) \<le> 2 * n"
proof
  show "filter (\<lambda>q. endpoint q = PERSONA_ENDPOINT @ ''/generate'') (map snd (o_calls (createUsers n net t))) =
     map (\<lambda>i. Generate (user_email i)) [0..<n]"
    by (simp add: createUsers_apply map_concat filter_concat comp_def user_chain_generates
        del: upt_Suc)
  show "length (o_calls (createUsers n net t)) \<le> 2 * n"
    using length_concat_map_le [of "[0..<n]" "\<lambda>i. o_calls (user_chain i net t)" 2]
    by (simp add: createUsers_apply user_chain_calls_length comp_def)
qed

end
