(* ===== verification/Lodash.thy ===== *)
theory Lodash
  imports Prelude "HOL-Library.Multiset"
begin

text \<open>
  The two lodash functions whose semantics the script relies on, as lodash 3 implements
  them (before 4.0 \<^verbatim>\<open>_.sample(xs, n)\<close> returns an array).
  \<^verbatim>\<open>_.sample(collection, n)\<close> copies the collection, clamps \<open>n\<close> to its length and
  runs a partial Fisher--Yates shuffle: for \<open>index = 0 .. n-1\<close> it swaps
  \<open>result[index]\<close> with \<open>result[rand]\<close>, \<open>rand = baseRandom(index, length - 1)\<close>,
  then truncates the array to \<open>n\<close>. The random draws are an explicit argument
  \<open>rnd\<close>: the \<open>index\<close>-th draw is \<open>index + rnd index mod (length - index)\<close>, so every
  function \<open>rnd\<close> is a possible run and every run is some \<open>rnd\<close>.
  \<^verbatim>\<open>_.defaults(obj, src)\<close> assigns each key of \<open>src\<close>, in order, to \<open>obj\<close> where
  \<open>obj\<close> has no value for it; an object's keys keep insertion order, so new keys are
  appended.
\<close>

text \<open>\<^verbatim>\<open>value = result[rand]; result[rand] = result[index]; result[index] = value\<close>.\<close>

definition sample_swap :: "nat \<Rightarrow> nat \<Rightarrow> 'a list \<Rightarrow> 'a list" where
  "sample_swap index rand result = result[rand := result ! index, index := result ! rand]"

function sample_loop :: "(nat \<Rightarrow> nat) \<Rightarrow> nat \<Rightarrow> nat \<Rightarrow> 'a list \<Rightarrow> 'a list" where
  "sample_loop rnd n index result =
     (if index < n
      then sample_loop rnd n (Suc index) (sample_swap index (index + rnd index mod (length result - index)) result)
      else result)"
  by pat_completeness auto
termination
  by (relation "measure (\<lambda>(rnd, n, index, result). n - index)") auto

declare sample_loop.simps [simp del]

definition lodash_sample :: "'a list \<Rightarrow> nat \<Rightarrow> (nat \<Rightarrow> nat) \<Rightarrow> 'a list" where
  "lodash_sample xs n rnd = (let k = min n (length xs) in take k (sample_loop rnd k 0 xs))"

fun lodash_defaults :: "('k \<times> 'v) list \<Rightarrow> ('k \<times> 'v) list \<Rightarrow> ('k \<times> 'v) list" where
  "lodash_defaults obj [] = obj"
| "lodash_defaults obj ((k, v) # src) =
     lodash_defaults (if map_of obj k = None then obj @ [(k, v)] else obj) src"

lemma length_sample_swap [simp]: "length (sample_swap i r xs) = length xs"
  by (simp add: sample_swap_def)

lemma mset_sample_swap: "i < length xs \<Longrightarrow> r < length xs \<Longrightarrow> mset (sample_swap i r xs) = mset xs"
  unfolding sample_swap_def by (rule mset_swap)

lemma sample_swap_nth_below: "j < i \<Longrightarrow> i \<le> r \<Longrightarrow> sample_swap i r xs ! j = xs ! j"
  by (simp add: sample_swap_def)

lemma sample_draw_bound: "i < length xs \<Longrightarrow> i + k mod (length xs - i) < length xs"
proof -
  assume "i < length xs"
  then have "k mod (length xs - i) < length xs - i" by simp
  then show ?thesis by linarith
qed

lemma length_sample_loop [simp]: "length (sample_loop rnd n i xs) = length xs"
  by (induction rnd n i xs rule: sample_loop.induct) (simp add: sample_loop.simps)

lemma mset_sample_loop: "n \<le> length xs \<Longrightarrow> mset (sample_loop rnd n i xs) = mset xs"
proof (induction rnd n i xs rule: sample_loop.induct)
  case (1 rnd n index result)
  show ?case
  proof (cases "index < n")
    case True
    then have "index < length result" using "1.prems" by simp
    with True "1.IH" "1.prems" show ?thesis
      by (simp add: sample_loop.simps [of rnd n index result] mset_sample_swap sample_draw_bound)
  next
    case False
    then show ?thesis by (simp add: sample_loop.simps [of rnd n index result])
  qed
qed

text \<open>Positions below the running index are never touched again.\<close>

lemma sample_loop_nth_below:
  "n \<le> length xs \<Longrightarrow> j < i \<Longrightarrow> sample_loop rnd n i xs ! j = xs ! j"
proof (induction rnd n i xs rule: sample_loop.induct)
  case (1 rnd n index result)
  show ?case
  proof (cases "index < n")
    case True
    with "1.IH" "1.prems" show ?thesis
      by (simp add: sample_loop.simps [of rnd n index result] sample_swap_nth_below)
  next
    case False
    then show ?thesis by (simp add: sample_loop.simps [of rnd n index result])
  qed
qed

lemma length_lodash_sample [simp]: "length (lodash_sample xs n rnd) = min n (length xs)"
  by (simp add: lodash_sample_def Let_def)

text \<open>The sample is a prefix of a permutation of the collection.\<close>

lemma lodash_sample_perm:
  "\<exists>ys. mset ys = mset xs \<and> lodash_sample xs n rnd = take (min n (length xs)) ys"
proof -
  have "mset (sample_loop rnd (min n (length xs)) 0 xs) = mset xs" by (rule mset_sample_loop) simp
  then show ?thesis by (auto simp: lodash_sample_def Let_def)
qed

lemma mset_lodash_sample: "mset (lodash_sample xs n rnd) \<subseteq># mset xs"
proof -
  obtain ys where ys: "mset ys = mset xs" "lodash_sample xs n rnd = take (min n (length xs)) ys"
    using lodash_sample_perm by blast
  have "mset ys = mset (take (min n (length xs)) ys) + mset (drop (min n (length xs)) ys)"
    by (metis append_take_drop_id mset_append)
  with ys show ?thesis by (metis mset_subset_eq_add_left)
qed

lemma lodash_sample_set: "set (lodash_sample xs n rnd) \<subseteq> set xs"
proof -
  obtain ys where ys: "mset ys = mset xs" "lodash_sample xs n rnd = take (min n (length xs)) ys"
    using lodash_sample_perm by blast
  then show ?thesis by (metis mset_eq_setD set_take_subset)
qed

lemma lodash_sample_distinct: "distinct xs \<Longrightarrow> distinct (lodash_sample xs n rnd)"
proof -
  assume d: "distinct xs"
  obtain ys where ys: "mset ys = mset xs" "lodash_sample xs n rnd = take (min n (length xs)) ys"
    using lodash_sample_perm by blast
  then show ?thesis using d by (metis distinct_take mset_eq_imp_distinct_iff)
qed

text \<open>The first element drawn is the one at the first draw's position.\<close>

lemma lodash_sample_first:
  assumes "0 < n" "xs \<noteq> []"
  shows "lodash_sample xs n rnd ! 0 = xs ! (rnd 0 mod length xs)"
proof -
  let ?k = "min n (length xs)"
  have k: "0 < ?k" "?k \<le> length xs" using assms by auto
  let ?ys = "sample_swap 0 (rnd 0 mod length xs) xs"
  have "sample_loop rnd ?k 0 xs = sample_loop rnd ?k 1 ?ys"
    using k by (simp add: sample_loop.simps [of rnd ?k 0 xs])
  then have "sample_loop rnd ?k 0 xs ! 0 = ?ys ! 0"
    using sample_loop_nth_below [of ?k ?ys 0 1 rnd] k by simp
  moreover have "?ys ! 0 = xs ! (rnd 0 mod length xs)"
    using assms by (simp add: sample_swap_def nth_list_update)
  ultimately show ?thesis using k by (simp add: lodash_sample_def Let_def)
qed

lemma map_of_snoc_other: "k' \<noteq> k \<Longrightarrow> map_of (obj @ [(k, v)]) k' = map_of obj k'"
  by (simp add: map_of_append map_add_def split: option.split)

lemma map_of_snoc_new: "map_of obj k = None \<Longrightarrow> map_of (obj @ [(k, v)]) k = Some v"
  by (simp add: map_of_append map_add_def)

text \<open>No key of the object is overwritten; a missing key takes the first value the source gives it.\<close>

lemma map_of_lodash_defaults:
  "map_of (lodash_defaults obj src) k = (case map_of obj k of Some v \<Rightarrow> Some v | None \<Rightarrow> map_of src k)"
proof (induction obj src rule: lodash_defaults.induct)
  case (1 obj)
  then show ?case by (simp split: option.split)
next
  case (2 obj k' v src)
  show ?case
  proof (cases "map_of obj k' = None")
    case True
    with "2.IH" have IH: "map_of (lodash_defaults (obj @ [(k', v)]) src) k =
        (case map_of (obj @ [(k', v)]) k of Some v \<Rightarrow> Some v | None \<Rightarrow> map_of src k)"
      by (simp del: map_of_append)
    show ?thesis
    proof (cases "k = k'")
      case True
      with IH \<open>map_of obj k' = None\<close> show ?thesis by (simp add: map_of_snoc_new del: map_of_append)
    next
      case False
      with IH \<open>map_of obj k' = None\<close> show ?thesis
        by (simp add: map_of_snoc_other del: map_of_append split: option.split)
    qed
  next
    case False
    with "2.IH" show ?thesis by (auto split: option.split)
  qed
qed

text \<open>With a source of distinct keys, the result is the object followed by the source entries it lacks.\<close>

lemma lodash_defaults_append:
  "distinct (map fst src) \<Longrightarrow> lodash_defaults obj src = obj @ filter (\<lambda>(k, v). map_of obj k = None) src"
proof (induction obj src rule: lodash_defaults.induct)
  case (1 obj)
  then show ?case by simp
next
  case (2 obj k v src)
  have k: "k \<notin> fst ` set src" and d: "distinct (map fst src)" using "2.prems" by auto
  show ?case
  proof (cases "map_of obj k = None")
    case True
    have eq: "map_of (obj @ [(k, v)]) a = map_of obj a" if "(a, b) \<in> set src" for a b
    proof -
      have "a \<noteq> k" using k that by force
      then show ?thesis by (rule map_of_snoc_other)
    qed
    have "filter (\<lambda>(k', v'). map_of (obj @ [(k, v)]) k' = None) src = filter (\<lambda>(k', v'). map_of obj k' = None) src"
      by (rule filter_cong) (auto simp: eq simp del: map_of_append)
    with True "2.IH" [OF d] show ?thesis by (simp del: map_of_append)
  next
    case False
    then have "lodash_defaults obj ((k, v) # src) = lodash_defaults obj src" by auto
    moreover have "lodash_defaults obj src = obj @ filter (\<lambda>(k, v). map_of obj k = None) src"
      using "2.IH" [OF d] False by simp
    ultimately show ?thesis using False by auto
  qed
qed

lemma lodash_defaults_prefix: "\<exists>ys. lodash_defaults obj src = obj @ ys"
proof (induction obj src rule: lodash_defaults.induct)
  case (1 obj)
  then show ?case by simp
next
  case (2 obj k v src)
  then show ?case by (cases "map_of obj k = None") auto
qed

lemma lodash_defaults_keys:
  "fst ` set (lodash_defaults obj src) = fst ` set obj \<union> fst ` set src"
proof (induction obj src rule: lodash_defaults.induct)
  case (1 obj)
  then show ?case by simp
next
  case (2 obj k v src)
  then show ?case by (cases "map_of obj k = None") (auto simp: map_of_eq_None_iff)
qed

lemma lodash_defaults_distinct:
  "distinct (map fst obj) \<Longrightarrow> distinct (map fst (lodash_defaults obj src))"
proof (induction obj src rule: lodash_defaults.induct)
  case (1 obj)
  then show ?case by simp
next
  case (2 obj k v src)
  then show ?case by (cases "map_of obj k = None") (auto simp: map_of_eq_None_iff)
qed

end
