(* ===== verification/Games.thy ===== *)
theory Games
  imports Wire Lodash
begin

text \<open>
  The game factory of \<^verbatim>\<open>createGames\<close> (\<^verbatim>\<open>src/scripts/db-prefill.js\<close>, lines 20--33 and
  196--218): every catalog entry, completed with the default parameters by
  \<^verbatim>\<open>_.defaults\<close>, is submitted at once; each response body goes through
  \<^verbatim>\<open>.then(JSON.parse)\<close>, so a body that is not JSON rejects the submission (it does not
  crash the process, unlike the callbacks of the user factory), and \<^verbatim>\<open>Promise.all\<close>
  joins the submissions.
\<close>

type_synonym form = "(string \<times> string) list"

definition FAKE_GAMES :: "form list" where
  "FAKE_GAMES = [
     [(''name'', ''Mario Broskis''), (''app_url'', ''http://mario.broskis'')],
     [(''name'', ''Halo 718''), (''app_url'', ''http://halo.com'')],
     [(''name'', ''Left 5 Dead''), (''app_url'', ''http://dead.left'')]]"

definition default_params :: form where
  "default_params = [(''icons'', ''128''), (''screenshots'', ''yes'')]"

definition game_form :: "form \<Rightarrow> form" where
  "game_form game = lodash_defaults game default_params"

definition submitGame_cb :: "response \<Rightarrow> failure + body" where
  "submitGame_cb r = (case r of ConnError e \<Rightarrow> Inl (Rej (TransportErr e)) | Resp b \<Rightarrow> Inr b)"

definition submitGame :: "form \<Rightarrow> jval ptask" where
  "submitGame game = t_then (t_call (GameSubmit (game_form game)) submitGame_cb) (\<lambda>b. in_then (json_parse b))"

definition createGames :: "form list \<Rightarrow> jval list ptask" where
  "createGames games = t_all (map submitGame games)"

lemma submitGame_calls [simp]:
  "o_calls (submitGame g net t) = [(t, GameSubmit (game_form g))]"
  by (simp add: submitGame_def t_call_apply)

lemma submitGame_res:
  "o_res (submitGame g net t) = (case snd (net t (GameSubmit (game_form g))) of
      ConnError e \<Rightarrow> Inl (Rej (TransportErr e))
    | Resp (NotJSON s) \<Rightarrow> Inl (Rej (Thrown SyntaxError))
    | Resp (JSON j) \<Rightarrow> Inr j)"
  by (simp add: submitGame_def t_then_res t_call_apply submitGame_cb_def
      split: response.split body.split)

lemma createGames_apply:
  "createGames gs net t = join t (map (\<lambda>g. submitGame g net t) gs)"
  by (simp add: createGames_def t_all_apply comp_def)

lemma task_wf_submitGame [wf_intros]: "task_wf (submitGame g)"
  by (simp add: submitGame_def task_wf_then task_wf_call)

lemma task_wf_createGames [wf_intros]: "task_wf (createGames gs)"
  by (simp add: createGames_def task_wf_all task_wf_submitGame)

lemma createGames_endpoints:
  "c \<in> set (o_calls (createGames gs net t)) \<Longrightarrow> endpoint (snd c) = API_ENDPOINT @ ''/game/submit''"
  by (induction gs) (auto simp: createGames_apply)

text \<open>
  C5: the form submitted for a catalog entry is the entry itself, every field kept in
  its order, followed by \<open>icons = 128\<close> and then \<open>screenshots = yes\<close> for those of
  the two the entry does not set.
\<close>

theorem game_form_keeps_fields:
  "game_form g = g @ filter (\<lambda>(k, v). map_of g k = None) [(''icons'', ''128''), (''screenshots'', ''yes'')]"
  by (simp add: game_form_def default_params_def lodash_defaults_append)

text \<open>
  C6: \<open>createGames\<close> sends exactly one submission per catalog entry, all at the start
  time, in catalog order, each with the entry's completed form.
\<close>

theorem createGames_requests:
  "o_calls (createGames gs net t) = map (\<lambda>g. (t, GameSubmit (game_form g))) gs"
  by (induction gs) (simp_all add: createGames_apply)

text \<open>
  C7: the game factory never ends the process with an uncaught exception: a rejected
  \<open>createGames\<close> fails with a transport error or with the SyntaxError of
  \<^verbatim>\<open>JSON.parse\<close> in its \<^verbatim>\<open>.then\<close> handler, both rejections the orchestrator catches.
\<close>

theorem createGames_failure:
  assumes "o_res (createGames gs net t) = Inl f"
  shows "(\<exists>e. f = Rej (TransportErr e)) \<or> f = Rej (Thrown SyntaxError)"
proof -
  from join_Inl_earliest [of t "map (\<lambda>g. submitGame g net t) gs" f] assms
  obtain g where "o_res (submitGame g net t) = Inl f" by (auto simp: createGames_apply)
  then show ?thesis by (auto simp: submitGame_res split: response.splits body.splits)
qed

theorem createGames_failure_witness:
  "o_res (createGames FAKE_GAMES (net_with happy_net (GameSubmit (game_form (hd FAKE_GAMES))) (Resp (NotJSON ''<html>''))) 0)
     = Inl (Rej (Thrown SyntaxError)) \<and>
   ((\<exists>e. Rej (Thrown SyntaxError) = Rej (TransportErr e)) \<or> Rej (Thrown SyntaxError) = Rej (Thrown SyntaxError))"
proof -
  have f: "o_res (createGames FAKE_GAMES (net_with happy_net (GameSubmit (game_form (hd FAKE_GAMES))) (Resp (NotJSON ''<html>''))) 0)
     = Inl (Rej (Thrown SyntaxError))"
    by code_simp
  show ?thesis using createGames_failure [OF f] f by simp
qed

text \<open>
  C8: \<open>createGames\<close> resolves exactly when every submission got a JSON body, with the
  parsed bodies in catalog order.
\<close>

theorem createGames_result:
  "o_res (createGames gs net t) = Inr js \<longleftrightarrow>
     list_all2 (\<lambda>g j. snd (net t (GameSubmit (game_form g))) = Resp (JSON j)) gs js"
proof -
  have "o_res (submitGame g net t) = Inr j \<longleftrightarrow> snd (net t (GameSubmit (game_form g))) = Resp (JSON j)" for g j
    by (simp add: submitGame_res split: response.split body.split)
  then show ?thesis
    by (simp add: createGames_apply join_Inr_iff list_all2_map1)
qed

end
