(* ===== verification/Friends.thy ===== *)
theory Friends
  imports Users Lodash
begin

text \<open>
  The friend graph builder of \<^verbatim>\<open>createFriends\<close> (\<^verbatim>\<open>src/scripts/db-prefill.js\<close>, lines
  106--194). For every user at once, \<^verbatim>\<open>sendRequests\<close> samples
  \<^verbatim>\<open>Math.min(3, USER_COUNT)\<close> users (itself not excluded) and sends them friend requests
  concurrently; \<^verbatim>\<open>sendRequest\<close> turns the benign answers \<open>already_friends\<close> and
  \<open>already_requested\<close> into the empty edge \<^verbatim>\<open>{}\<close>; when all of the user's requests have
  resolved, \<^verbatim>\<open>acceptRequest\<close> lets each recipient of a populated edge accept it and skips
  the empty ones. The stage joins all users and flattens the accepted edges.
\<close>

text \<open>The value a friend request resolves with: \<^verbatim>\<open>{}\<close> or \<^verbatim>\<open>{user, recipient}\<close>.\<close>

datatype edge = NoEdge | Edge user user

definition friend_sample_size :: "nat \<Rightarrow> nat" where
  "friend_sample_size user_count = min 3 user_count"

definition sendRequest_cb :: "user \<Rightarrow> user \<Rightarrow> response \<Rightarrow> failure + edge" where
  "sendRequest_cb u r resp = (case resp of
      ConnError e \<Rightarrow> Inl (Rej (TransportErr e))
    | Resp b \<Rightarrow> ebind (in_callback (json_parse b)) (\<lambda>j.
        ebind (in_callback (get_prop (Some j) ''error'')) (\<lambda>err.
          if truthy err then
            (if err = Some (JStr ''already_friends'') \<or> err = Some (JStr ''already_requested'')
             then Inr NoEdge else Inl (Rej (FriendReqError err)))
          else Inr (Edge u r))))"

definition sendRequest :: "user \<Rightarrow> user \<Rightarrow> edge ptask" where
  "sendRequest u r = t_call (FriendRequest (u_token u) (u_id r)) (sendRequest_cb u r)"

text \<open>
  \<^verbatim>\<open>_.sample(users, Math.min(3, USER_COUNT))\<close>: \<open>user_count\<close> is the script's constant
  \<^verbatim>\<open>USER_COUNT\<close>, \<open>rnd\<close> the random draws of this call of \<^verbatim>\<open>_.sample\<close>.
\<close>

definition sendRequests :: "nat \<Rightarrow> user list \<Rightarrow> (nat \<Rightarrow> nat) \<Rightarrow> user \<Rightarrow> edge list ptask" where
  "sendRequests user_count users rnd u =
     t_all (map (sendRequest u) (lodash_sample users (friend_sample_size user_count) rnd))"

definition acceptRequest_cb :: "user \<Rightarrow> user \<Rightarrow> response \<Rightarrow> failure + edge" where
  "acceptRequest_cb u r resp = (case resp of
      ConnError e \<Rightarrow> Inl (Rej (TransportErr e))
    | Resp b \<Rightarrow> ebind (in_callback (json_parse b)) (\<lambda>j.
        ebind (in_callback (get_prop (Some j) ''error'')) (\<lambda>err.
          if truthy err then Inl (Rej (AcceptError err)) else Inr (Edge u r))))"

fun acceptRequest :: "edge \<Rightarrow> edge ptask" where
  "acceptRequest NoEdge = t_return NoEdge"
| "acceptRequest (Edge u r) = t_call (FriendAccept (u_token r) (u_id u)) (acceptRequest_cb u r)"

definition userFriends :: "nat \<Rightarrow> user list \<Rightarrow> (nat \<Rightarrow> nat) \<Rightarrow> user \<Rightarrow> edge list ptask" where
  "userFriends user_count users rnd u =
     t_bind (sendRequests user_count users rnd u) (\<lambda>reqs. t_all (map acceptRequest reqs))"

text \<open>\<open>rnds i\<close> are the random draws of \<^verbatim>\<open>_.sample\<close> for the \<open>i\<close>-th user.\<close>

definition createFriends :: "nat \<Rightarrow> user list \<Rightarrow> (nat \<Rightarrow> nat \<Rightarrow> nat) \<Rightarrow> edge list ptask" where
  "createFriends user_count users rnds =
     t_then (t_all (map (\<lambda>i. userFriends user_count users (rnds i) (users ! i)) [0..<length users]))
       (\<lambda>xss. Inr (concat xss))"

definition demo_user :: "nat \<Rightarrow> user" where
  "demo_user i = \<lparr>u_email = user_email i, u_token = Some (JStr (''ssa'' @ nat_str i)),
     u_username = Some (JStr (''test'' @ nat_str i)), u_id = Some (JNum (int i))\<rparr>"

lemma sendRequest_apply [task_simps]:
  "sendRequest u r net t = \<lparr>o_calls = [(t, FriendRequest (u_token u) (u_id r))],
     o_time = t + fst (net t (FriendRequest (u_token u) (u_id r))),
     o_res = sendRequest_cb u r (snd (net t (FriendRequest (u_token u) (u_id r))))\<rparr>"
  by (simp add: sendRequest_def t_call_apply)

lemma acceptRequest_calls:
  "o_calls (acceptRequest e net t) = (case e of NoEdge \<Rightarrow> [] | Edge a b \<Rightarrow> [(t, FriendAccept (u_token b) (u_id a))])"
  by (cases e) (simp_all add: t_return_apply t_call_apply)

lemma sendRequest_cb_Edge: "sendRequest_cb u r resp = Inr (Edge a b) \<Longrightarrow> a = u \<and> b = r"
  by (auto simp: sendRequest_cb_def ebind_eq_Inr split: response.splits if_splits)

lemma sendRequests_apply:
  "sendRequests uc users rnd u net t = join t (map (\<lambda>r. sendRequest u r net t) (lodash_sample users (friend_sample_size uc) rnd))"
  by (simp add: sendRequests_def t_all_apply comp_def)

lemma sendRequests_calls:
  "o_calls (sendRequests uc users rnd u net t) = map (\<lambda>r. (t, FriendRequest (u_token u) (u_id r))) (lodash_sample users (friend_sample_size uc) rnd)"
  by (simp add: sendRequests_apply sendRequest_apply comp_def)

lemma userFriends_calls:
  "o_calls (userFriends uc users rnd u net t) =
     map (\<lambda>r. (t, FriendRequest (u_token u) (u_id r))) (lodash_sample users (friend_sample_size uc) rnd) @
     (case o_res (sendRequests uc users rnd u net t) of
        Inl e \<Rightarrow> []
      | Inr es \<Rightarrow> concat (map (\<lambda>e. o_calls (acceptRequest e net (o_time (sendRequests uc users rnd u net t)))) es))"
  by (simp add: userFriends_def t_bind_apply t_all_apply sendRequests_calls comp_def split: sum.split)

lemma sendRequests_Inr:
  "o_res (sendRequests uc users rnd u net t) = Inr es \<Longrightarrow>
     list_all2 (\<lambda>r e. sendRequest_cb u r (snd (net t (FriendRequest (u_token u) (u_id r)))) = Inr e)
       (lodash_sample users (friend_sample_size uc) rnd) es"
  by (simp add: sendRequests_apply join_Inr_iff list_all2_map1 sendRequest_apply)

lemma sendRequests_time:
  assumes "\<not> isl (o_res (sendRequests uc users rnd u net t))" "r \<in> set (lodash_sample users (friend_sample_size uc) rnd)"
  shows "t + fst (net t (FriendRequest (u_token u) (u_id r))) \<le> o_time (sendRequests uc users rnd u net t)"
proof -
  have "o_time (sendRequests uc users rnd u net t) =
      Max (insert t (o_time ` set (map (\<lambda>r. sendRequest u r net t) (lodash_sample users (friend_sample_size uc) rnd))))"
    using join_time_Inr [of t "map (\<lambda>r. sendRequest u r net t) (lodash_sample users (friend_sample_size uc) rnd)"] assms(1)
    unfolding sendRequests_apply by blast
  moreover have "t + fst (net t (FriendRequest (u_token u) (u_id r))) \<in>
      insert t (o_time ` set (map (\<lambda>r. sendRequest u r net t) (lodash_sample users (friend_sample_size uc) rnd)))"
  proof -
    have "o_time (sendRequest u r net t) = t + fst (net t (FriendRequest (u_token u) (u_id r)))"
      by (simp add: sendRequest_apply)
    with assms(2) show ?thesis by (metis image_eqI insertI2 list.set_map)
  qed
  ultimately show ?thesis by simp
qed

lemma accept_calls_of_edges:
  "list_all2 (\<lambda>r e. sendRequest_cb u r (R r) = Inr e) rs es \<Longrightarrow>
     concat (map (\<lambda>e. map snd (o_calls (acceptRequest e net s))) es) =
       [FriendAccept (u_token r) (u_id u). (r, e) \<leftarrow> zip rs es, e \<noteq> NoEdge]"
  by (induction rule: list_all2_induct) (auto simp: acceptRequest_calls dest: sendRequest_cb_Edge split: edge.split)

lemma userFriends_Inl:
  "o_res (sendRequests uc users rnd u net t) = Inl e \<Longrightarrow> o_res (userFriends uc users rnd u net t) = Inl e"
  by (simp add: userFriends_def t_bind_apply)

lemma createFriends_calls:
  "o_calls (createFriends uc users rnds net t) =
     concat (map (\<lambda>i. o_calls (userFriends uc users (rnds i) (users ! i) net t)) [0..<length users])"
  by (simp add: createFriends_def t_all_apply comp_def)

lemma userFriends_accept_after_request:
  assumes "(s, FriendAccept tok aid) \<in> set (o_calls (userFriends uc users rnd u net t))"
  shows "\<exists>r\<in>set (lodash_sample users (friend_sample_size uc) rnd). tok = u_token r \<and> aid = u_id u \<and>
     sendRequest_cb u r (snd (net t (FriendRequest (u_token u) (u_id r)))) = Inr (Edge u r) \<and>
     t + fst (net t (FriendRequest (u_token u) (u_id r))) \<le> s"
proof -
  let ?S = "sendRequests uc users rnd u net t"
  have notreq: "(s, FriendAccept tok aid) \<notin> set (map (\<lambda>r. (t, FriendRequest (u_token u) (u_id r))) (lodash_sample users (friend_sample_size uc) rnd))"
    by auto
  obtain es where es: "o_res ?S = Inr es"
    and acc: "(s, FriendAccept tok aid) \<in> set (concat (map (\<lambda>e. o_calls (acceptRequest e net (o_time ?S))) es))"
  proof (cases "o_res ?S")
    case (Inl f)
    with assms notreq show ?thesis by (simp add: userFriends_calls)
  next
    case (Inr es)
    with assms notreq show ?thesis by (intro that [of es]) (simp_all add: userFriends_calls)
  qed
  from acc obtain e where e: "e \<in> set es" "(s, FriendAccept tok aid) \<in> set (o_calls (acceptRequest e net (o_time ?S)))"
    by auto
  then obtain a b where eab: "e = Edge a b" "tok = u_token b" "aid = u_id a" "s = o_time ?S"
    by (cases e) (auto simp: acceptRequest_calls)
  from list_all2_in_set2 [OF sendRequests_Inr [OF es] e(1)] obtain r where r: "r \<in> set (lodash_sample users (friend_sample_size uc) rnd)"
    "sendRequest_cb u r (snd (net t (FriendRequest (u_token u) (u_id r)))) = Inr e"
    by blast
  with eab have "a = u" "b = r" using sendRequest_cb_Edge by blast+
  moreover have "t + fst (net t (FriendRequest (u_token u) (u_id r))) \<le> o_time ?S"
    using sendRequests_time [OF _ r(1)] es by simp
  ultimately show ?thesis using r eab by blast
qed

lemma task_wf_acceptRequest [wf_intros]: "task_wf (acceptRequest e)"
  by (cases e) (simp_all add: task_wf_return task_wf_call)

lemma task_wf_userFriends [wf_intros]: "task_wf (userFriends uc users rnd u)"
  by (auto simp: userFriends_def sendRequests_def sendRequest_def
      intro!: task_wf_bind task_wf_all task_wf_call task_wf_acceptRequest)

lemma task_wf_createFriends [wf_intros]: "task_wf (createFriends uc users rnds)"
  by (auto simp: createFriends_def intro!: task_wf_then task_wf_all task_wf_userFriends)

lemma createFriends_endpoints:
  "c \<in> set (o_calls (createFriends uc users rnds net t)) \<Longrightarrow>
     endpoint (snd c) \<in> {API_ENDPOINT @ ''/user/friends/request'', API_ENDPOINT @ ''/user/friends/accept''}"
  by (auto simp: createFriends_calls userFriends_calls acceptRequest_calls split: sum.splits edge.splits)

lemma createFriends_requests_length:
  "length [q \<leftarrow> map snd (o_calls (createFriends uc users rnds net t)). endpoint q = API_ENDPOINT @ ''/user/friends/request''] =
     length users * min (min 3 uc) (length users)"
proof -
  have req: "[q \<leftarrow> map snd (o_calls (userFriends uc users rnd u net t)). endpoint q = API_ENDPOINT @ ''/user/friends/request''] =
      map (\<lambda>r. FriendRequest (u_token u) (u_id r)) (lodash_sample users (friend_sample_size uc) rnd)" for rnd u
    by (simp add: userFriends_calls comp_def endpoint_FriendRequest_iff acceptRequest_calls
        filter_concat map_concat split: sum.split edge.split)
  have "length (concat (map (\<lambda>i. map (\<lambda>r. FriendRequest (u_token (users ! i)) (u_id r))
      (lodash_sample users (friend_sample_size uc) (rnds i))) [0..<length users])) =
      min (min 3 uc) (length users) * length [0..<length users]"
    by (rule length_concat_map_const) (simp add: friend_sample_size_def)
  then show ?thesis
    by (simp add: createFriends_calls map_concat filter_concat req comp_def mult.commute)
qed

text \<open>
  C9: a benign conflict. A friend request answered with the error code
  \<open>already_friends\<close> or \<open>already_requested\<close> does not fail: it resolves with the empty
  edge.
\<close>

theorem sendRequest_benign:
  assumes "snd (net t (FriendRequest (u_token u) (u_id r))) = Resp (JSON (JObj fs))"
    and "map_of (rev fs) ''error'' = Some (JStr c)"
    and "c = ''already_friends'' \<or> c = ''already_requested''"
  shows "o_res (sendRequest u r net t) = Inr NoEdge"
  using assms by (auto simp: sendRequest_apply sendRequest_cb_def)

theorem sendRequest_benign_witness:
  "o_res (sendRequest (demo_user 0) (demo_user 1)
      (net_with happy_net (FriendRequest (u_token (demo_user 0)) (u_id (demo_user 1)))
         (Resp (JSON (JObj [(''error'', JStr ''already_requested'')])))) 0) = Inr NoEdge"
  by (rule sendRequest_benign [where fs = "[(''error'', JStr ''already_requested'')]" and c = "''already_requested''"])
     (simp_all add: net_with_def)

text \<open>
  C10: once all of a user's friend requests have resolved, its sub-batch sends exactly
  one accept per populated edge and none for an empty edge, in sample order; each
  accept is sent with the recipient's token and names the requester (the roles of the
  request are reversed).
\<close>

theorem userFriends_accepts:
  assumes "o_res (sendRequests uc users rnd u net t) = Inr es"
  shows "[q \<leftarrow> map snd (o_calls (userFriends uc users rnd u net t)). endpoint q = API_ENDPOINT @ ''/user/friends/accept''] =
     [FriendAccept (u_token r) (u_id u). (r, e) \<leftarrow> zip (lodash_sample users (friend_sample_size uc) rnd) es, e \<noteq> NoEdge]"
proof -
  let ?acc = "concat (map (\<lambda>e. map snd (o_calls (acceptRequest e net (o_time (sendRequests uc users rnd u net t))))) es)"
  have acc: "?acc = [FriendAccept (u_token r) (u_id u). (r, e) \<leftarrow> zip (lodash_sample users (friend_sample_size uc) rnd) es, e \<noteq> NoEdge]"
    using accept_calls_of_edges [OF sendRequests_Inr [OF assms]] .
  have "\<forall>q\<in>set ?acc. endpoint q = API_ENDPOINT @ ''/user/friends/accept''"
    unfolding acc by auto
  then have "filter (\<lambda>q. endpoint q = API_ENDPOINT @ ''/user/friends/accept'') ?acc = ?acc"
    by (rule filter_True)
  then show ?thesis
    using assms acc by (simp add: userFriends_calls map_concat comp_def filter_concat)
qed

theorem userFriends_accepts_witness:
  "[q \<leftarrow> map snd (o_calls (userFriends 2 [demo_user 0, demo_user 1] (\<lambda>j. 1) (demo_user 0) happy_net 0)).
      endpoint q = API_ENDPOINT @ ''/user/friends/accept''] =
   [FriendAccept (u_token (demo_user 1)) (u_id (demo_user 0)), FriendAccept (u_token (demo_user 0)) (u_id (demo_user 0))]"
proof -
  have smp: "lodash_sample [demo_user 0, demo_user 1] (friend_sample_size 2) (\<lambda>j. 1) = [demo_user 1, demo_user 0]"
    by code_simp
  have es: "o_res (sendRequests 2 [demo_user 0, demo_user 1] (\<lambda>j. 1) (demo_user 0) happy_net 0) =
      Inr [Edge (demo_user 0) (demo_user 1), Edge (demo_user 0) (demo_user 0)]"
    by code_simp
  show ?thesis using userFriends_accepts [OF es] unfolding smp by simp
qed

text \<open>
  C11: a friend request answered with any other truthy error code is fatal for the
  requesting user's sub-batch: the sub-batch rejects and sends no accept at all, not
  even for the requests that succeeded.
\<close>

theorem userFriends_fatal:
  assumes "r \<in> set (lodash_sample users (friend_sample_size uc) rnd)"
    and "snd (net t (FriendRequest (u_token u) (u_id r))) = Resp (JSON j)"
    and "get_prop (Some j) ''error'' = Inr err" and "truthy err"
    and "err \<noteq> Some (JStr ''already_friends'')" and "err \<noteq> Some (JStr ''already_requested'')"
  shows "isl (o_res (userFriends uc users rnd u net t)) \<and>
     (\<forall>q\<in>set (map snd (o_calls (userFriends uc users rnd u net t))). endpoint q \<noteq> API_ENDPOINT @ ''/user/friends/accept'')"
proof -
  have "o_res (sendRequest u r net t) = Inl (Rej (FriendReqError err))"
    using assms(2-6) by (simp add: sendRequest_apply sendRequest_cb_def)
  then have "isl (o_res (sendRequests uc users rnd u net t))"
    using assms(1) join_isl_iff [of t "map (\<lambda>r. sendRequest u r net t) (lodash_sample users (friend_sample_size uc) rnd)"]
    by (force simp: sendRequests_apply)
  then obtain f where f: "o_res (sendRequests uc users rnd u net t) = Inl f"
    by (cases "o_res (sendRequests uc users rnd u net t)") auto
  then have "isl (o_res (userFriends uc users rnd u net t))" by (simp add: userFriends_Inl)
  moreover have "\<forall>q\<in>set (map snd (o_calls (userFriends uc users rnd u net t))).
      endpoint q \<noteq> API_ENDPOINT @ ''/user/friends/accept''"
    using f by (auto simp: userFriends_calls API_ENDPOINT_def)
  ultimately show ?thesis by blast
qed

theorem userFriends_fatal_witness:
  "isl (o_res (userFriends 1 [demo_user 0, demo_user 1] (\<lambda>j. 1) (demo_user 0)
      (net_with happy_net (FriendRequest (u_token (demo_user 0)) (u_id (demo_user 1)))
         (Resp (JSON (JObj [(''error'', JStr ''bad_user'')])))) 0))"
proof -
  let ?net = "net_with happy_net (FriendRequest (u_token (demo_user 0)) (u_id (demo_user 1)))
         (Resp (JSON (JObj [(''error'', JStr ''bad_user'')])))"
  have "demo_user 1 \<in> set (lodash_sample [demo_user 0, demo_user 1] (friend_sample_size 1) (\<lambda>j. 1))"
    by code_simp
  moreover have "snd (?net 0 (FriendRequest (u_token (demo_user 0)) (u_id (demo_user 1)))) =
      Resp (JSON (JObj [(''error'', JStr ''bad_user'')]))"
    by (simp add: net_with_def)
  ultimately show ?thesis
    using userFriends_fatal [of "demo_user 1" "[demo_user 0, demo_user 1]" 1 "\<lambda>j. 1" ?net 0 "demo_user 0"
        "JObj [(''error'', JStr ''bad_user'')]" "Some (JStr ''bad_user'')"]
    by simp
qed

text \<open>
  C12: every accept the friend stage sends answers a friend request that the stage
  sent earlier and that resolved with a populated edge: the accept is sent by the
  recipient of that request (with its token), names the requester, and is sent no
  earlier than the request's response arrived.
\<close>

theorem createFriends_accept_after_request:
  assumes "(s, FriendAccept tok aid) \<in> set (o_calls (createFriends uc users rnds net t))"
  shows "\<exists>i<length users. \<exists>r\<in>set (lodash_sample users (friend_sample_size uc) (rnds i)).
     (t, FriendRequest (u_token (users ! i)) (u_id r)) \<in> set (o_calls (createFriends uc users rnds net t)) \<and>
     tok = u_token r \<and> aid = u_id (users ! i) \<and>
     sendRequest_cb (users ! i) r (snd (net t (FriendRequest (u_token (users ! i)) (u_id r)))) = Inr (Edge (users ! i) r) \<and>
     t + fst (net t (FriendRequest (u_token (users ! i)) (u_id r))) \<le> s"
proof -
  from assms obtain i where i: "i < length users"
    and acc: "(s, FriendAccept tok aid) \<in> set (o_calls (userFriends uc users (rnds i) (users ! i) net t))"
    by (auto simp: createFriends_calls)
  from userFriends_accept_after_request [OF acc] obtain r where r: "r \<in> set (lodash_sample users (friend_sample_size uc) (rnds i))"
    "tok = u_token r" "aid = u_id (users ! i)"
    "sendRequest_cb (users ! i) r (snd (net t (FriendRequest (u_token (users ! i)) (u_id r)))) = Inr (Edge (users ! i) r)"
    "t + fst (net t (FriendRequest (u_token (users ! i)) (u_id r))) \<le> s"
    by blast
  have "(t, FriendRequest (u_token (users ! i)) (u_id r)) \<in> set (o_calls (userFriends uc users (rnds i) (users ! i) net t))"
    using r(1) by (simp add: userFriends_calls)
  with i have "(t, FriendRequest (u_token (users ! i)) (u_id r)) \<in> set (o_calls (createFriends uc users rnds net t))"
    by (auto simp: createFriends_calls)
  with i r show ?thesis by blast
qed

theorem createFriends_accept_after_request_witness:
  "(1, FriendAccept (u_token (demo_user 1)) (u_id (demo_user 0))) \<in>
     set (o_calls (createFriends 2 [demo_user 0, demo_user 1] (\<lambda>i j. 0) happy_net 0)) \<and>
   (\<exists>i<length [demo_user 0, demo_user 1]. \<exists>r\<in>set (lodash_sample [demo_user 0, demo_user 1] (friend_sample_size 2) ((\<lambda>i j. 0) i)).
     (0, FriendRequest (u_token ([demo_user 0, demo_user 1] ! i)) (u_id r)) \<in>
        set (o_calls (createFriends 2 [demo_user 0, demo_user 1] (\<lambda>i j. 0) happy_net 0)) \<and>
     u_token (demo_user 1) = u_token r \<and> u_id (demo_user 0) = u_id ([demo_user 0, demo_user 1] ! i) \<and>
     sendRequest_cb ([demo_user 0, demo_user 1] ! i) r
       (snd (happy_net 0 (FriendRequest (u_token ([demo_user 0, demo_user 1] ! i)) (u_id r)))) =
       Inr (Edge ([demo_user 0, demo_user 1] ! i) r) \<and>
     0 + fst (happy_net 0 (FriendRequest (u_token ([demo_user 0, demo_user 1] ! i)) (u_id r))) \<le> 1)"
proof -
  have h: "(1, FriendAccept (u_token (demo_user 1)) (u_id (demo_user 0))) \<in>
     set (o_calls (createFriends 2 [demo_user 0, demo_user 1] (\<lambda>i j. 0) happy_net 0))"
    by (simp add: createFriends_calls) code_simp
  show ?thesis by (rule conjI [OF h createFriends_accept_after_request [OF h]])
qed

text \<open>
  C13: each of the \<open>n\<close> users sends \<open>min (min 3 USER_COUNT) n\<close> friend requests,
  whatever the random draws, all at the start of the stage.
\<close>

theorem createFriends_request_count:
  "length [q \<leftarrow> map snd (o_calls (createFriends uc users rnds net t)). endpoint q = API_ENDPOINT @ ''/user/friends/request''] =
       length users * min (min 3 uc) (length users) \<and>
     (\<forall>x\<in>set (o_calls (createFriends uc users rnds net t)). endpoint (snd x) = API_ENDPOINT @ ''/user/friends/request'' \<longrightarrow> fst x = t)"
proof
  show "length [q \<leftarrow> map snd (o_calls (createFriends uc users rnds net t)). endpoint q = API_ENDPOINT @ ''/user/friends/request''] =
       length users * min (min 3 uc) (length users)"
    by (rule createFriends_requests_length)
  show "\<forall>x\<in>set (o_calls (createFriends uc users rnds net t)). endpoint (snd x) = API_ENDPOINT @ ''/user/friends/request'' \<longrightarrow> fst x = t"
    by (auto simp: createFriends_calls userFriends_calls acceptRequest_calls API_ENDPOINT_def
        split: sum.splits edge.splits)
qed

theorem createFriends_request_count_witness:
  "length [q \<leftarrow> map snd (o_calls (createFriends 2 [demo_user 0, demo_user 1] (\<lambda>i j. 1) happy_net 0)).
      endpoint q = API_ENDPOINT @ ''/user/friends/request''] = 4"
  using createFriends_request_count [of 2 "[demo_user 0, demo_user 1]" "\<lambda>i j. 1" happy_net 0] by simp

text \<open>
  C14: the peer sample does not exclude the user itself: in every stage with a
  positive \<^verbatim>\<open>USER_COUNT\<close>, each user sends a friend request to itself under some
  outcome of the random draws.
\<close>

theorem createFriends_self_request:
  assumes "0 < uc" and "i < length users"
  shows "\<exists>rnds. (t, FriendRequest (u_token (users ! i)) (u_id (users ! i))) \<in> set (o_calls (createFriends uc users rnds net t))"
proof
  let ?rnds = "\<lambda>j k. i"
  have k: "0 < friend_sample_size uc" using assms(1) by (simp add: friend_sample_size_def)
  have ne: "users \<noteq> []" using assms(2) by auto
  have "lodash_sample users (friend_sample_size uc) (?rnds i) ! 0 = users ! i"
    using lodash_sample_first [OF k ne, of "?rnds i"] assms(2) by simp
  moreover have "0 < length (lodash_sample users (friend_sample_size uc) (?rnds i))"
    using k ne by simp
  ultimately have "users ! i \<in> set (lodash_sample users (friend_sample_size uc) (?rnds i))"
    by (metis nth_mem)
  then have "(t, FriendRequest (u_token (users ! i)) (u_id (users ! i))) \<in>
      set (o_calls (userFriends uc users (?rnds i) (users ! i) net t))"
    by (simp add: userFriends_calls)
  with assms(2) show "(t, FriendRequest (u_token (users ! i)) (u_id (users ! i))) \<in> set (o_calls (createFriends uc users ?rnds net t))"
    by (auto simp: createFriends_calls)
qed

theorem createFriends_self_request_witness:
  "\<exists>rnds. (0, FriendRequest (u_token (demo_user 1)) (u_id (demo_user 1))) \<in>
     set (o_calls (createFriends 2 [demo_user 0, demo_user 1] rnds happy_net 0))"
  using createFriends_self_request [of 2 1 "[demo_user 0, demo_user 1]" 0 happy_net] by simp

end
