(* ===== verification/Purchases.thy ===== *)
theory Purchases
  imports Wire Lodash
begin

text \<open>
  The purchase generator of \<^verbatim>\<open>purchaseGames\<close> (\<^verbatim>\<open>src/scripts/db-prefill.js\<close>, lines
  220--247): for every session token it samples two game slugs with \<^verbatim>\<open>_.sample\<close> and
  pushes one \<^verbatim>\<open>newPurchase\<close> per pair into a single flat list, which one
  \<^verbatim>\<open>Promise.all\<close> joins. A purchase resolves with its response body, whatever it says;
  only a transport error rejects.
\<close>

definition purchase_sample_size :: nat where
  "purchase_sample_size = 2"

definition newPurchase_cb :: "response \<Rightarrow> failure + body" where
  "newPurchase_cb r = (case r of ConnError e \<Rightarrow> Inl (Rej (TransportErr e)) | Resp b \<Rightarrow> Inr b)"

definition newPurchase :: "jsval \<Rightarrow> jsval \<Rightarrow> body ptask" where
  "newPurchase user game = t_call (Purchase user game) newPurchase_cb"

text \<open>
  The form body \<^verbatim>\<open>{_user: user, game: game}\<close> of a purchase request as the API
  receives it: each value as its string, an absent value as the empty string.
\<close>

fun form_value :: "jsval \<Rightarrow> string" where
  "form_value None = []"
| "form_value (Some v) = js_str v"

definition purchase_form :: "jsval \<Rightarrow> jsval \<Rightarrow> (string \<times> string) list" where
  "purchase_form user game = [(''_user'', form_value user), (''game'', form_value game)]"

text \<open>\<open>rnds i\<close> are the random draws of \<^verbatim>\<open>_.sample(gameSlugs, 2)\<close> for the \<open>i\<close>-th token.\<close>

definition purchaseGames :: "jsval list \<Rightarrow> jsval list \<Rightarrow> (nat \<Rightarrow> nat \<Rightarrow> nat) \<Rightarrow> body list ptask" where
  "purchaseGames userSSAs gameSlugs rnds =
     t_all (concat (map (\<lambda>i. map (newPurchase (userSSAs ! i)) (lodash_sample gameSlugs purchase_sample_size (rnds i)))
       [0..<length userSSAs]))"

lemma newPurchase_apply [task_simps]:
  "newPurchase u g net t = \<lparr>o_calls = [(t, Purchase u g)], o_time = t + fst (net t (Purchase u g)),
     o_res = newPurchase_cb (snd (net t (Purchase u g)))\<rparr>"
  by (simp add: newPurchase_def t_call_apply)

lemma newPurchase_cb_isl: "isl (newPurchase_cb r) \<longleftrightarrow> is_conn_error r"
  by (simp add: newPurchase_cb_def is_conn_error_def split: response.split)

lemma purchaseGames_apply:
  "purchaseGames toks slugs rnds net t =
     join t (concat (map (\<lambda>i. map (\<lambda>g. newPurchase (toks ! i) g net t) (lodash_sample slugs purchase_sample_size (rnds i)))
       [0..<length toks]))"
  by (simp add: purchaseGames_def t_all_apply map_concat comp_def)

lemma purchaseGames_calls:
  "o_calls (purchaseGames toks slugs rnds net t) =
     concat (map (\<lambda>i. map (\<lambda>g. (t, Purchase (toks ! i) g)) (lodash_sample slugs purchase_sample_size (rnds i))) [0..<length toks])"
  by (simp add: purchaseGames_apply map_concat comp_def newPurchase_apply concat_concat_map_singletons)

lemma task_wf_purchaseGames [wf_intros]: "task_wf (purchaseGames toks slugs rnds)"
  by (auto simp: purchaseGames_def newPurchase_def intro!: task_wf_all task_wf_call)

lemma purchaseGames_endpoints:
  "c \<in> set (o_calls (purchaseGames toks slugs rnds net t)) \<Longrightarrow> endpoint (snd c) = API_ENDPOINT @ ''/user/purchase''"
  by (auto simp: purchaseGames_calls)

lemma purchaseGames_calls_length:
  "length (o_calls (purchaseGames toks slugs rnds net t)) = length toks * min 2 (length slugs)"
proof -
  have "length (concat (map (\<lambda>i. map (\<lambda>g. (t, Purchase (toks ! i) g)) (lodash_sample slugs purchase_sample_size (rnds i)))
      [0..<length toks])) = min 2 (length slugs) * length [0..<length toks]"
    by (rule length_concat_map_const) (simp add: purchase_sample_size_def)
  then show ?thesis by (simp add: purchaseGames_calls mult.commute)
qed

text \<open>
  C15: whatever the random draws, each session token gets \<open>min 2 (number of slugs)\<close>
  purchases, all sent at the start of the stage, never two for the same slug when the
  slugs are distinct, and only for slugs of the list.
\<close>

theorem purchaseGames_per_user:
  assumes dist: "distinct slugs"
  shows "o_calls (purchaseGames toks slugs rnds net t) =
       concat (map (\<lambda>i. map (\<lambda>g. (t, Purchase (toks ! i) g)) (lodash_sample slugs purchase_sample_size (rnds i))) [0..<length toks]) \<and>
     (\<forall>i<length toks. length (lodash_sample slugs purchase_sample_size (rnds i)) = min 2 (length slugs) \<and>
        distinct (lodash_sample slugs purchase_sample_size (rnds i)) \<and> set (lodash_sample slugs purchase_sample_size (rnds i)) \<subseteq> set slugs)"
proof (intro conjI allI impI)
  show "o_calls (purchaseGames toks slugs rnds net t) =
       concat (map (\<lambda>i. map (\<lambda>g. (t, Purchase (toks ! i) g)) (lodash_sample slugs purchase_sample_size (rnds i))) [0..<length toks])"
    by (rule purchaseGames_calls)
  fix i assume "i < length toks"
  show "length (lodash_sample slugs purchase_sample_size (rnds i)) = min 2 (length slugs)"
    by (simp add: purchase_sample_size_def)
  show "distinct (lodash_sample slugs purchase_sample_size (rnds i))" using dist by (rule lodash_sample_distinct)
  show "set (lodash_sample slugs purchase_sample_size (rnds i)) \<subseteq> set slugs" by (rule lodash_sample_set)
qed

theorem purchaseGames_per_user_witness:
  "o_calls (purchaseGames [Some (JStr ''a''), Some (JStr ''b'')] [Some (JStr ''pong'')] (\<lambda>i j. 0) happy_net 0) =
     [(0, Purchase (Some (JStr ''a'')) (Some (JStr ''pong''))), (0, Purchase (Some (JStr ''b'')) (Some (JStr ''pong'')))] \<and>
   length (lodash_sample [Some (JStr ''pong'')] purchase_sample_size (\<lambda>j. 0)) = 1"
proof -
  have d: "distinct [Some (JStr ''pong'')]" by simp
  have smp: "lodash_sample [Some (JStr ''pong'')] purchase_sample_size (\<lambda>j. 0) = [Some (JStr ''pong'')]"
    by code_simp
  from purchaseGames_per_user [OF d, of "[Some (JStr ''a''), Some (JStr ''b'')]" "\<lambda>i j. 0" happy_net 0] show ?thesis
    unfolding smp by (simp add: upt_conv_Cons)
qed

text \<open>
  C16: fail-fast for the whole stage. The purchase stage rejects exactly when some
  purchase request it sent met a transport error, whatever the other purchases do;
  error bodies do not make it fail.
\<close>

theorem purchaseGames_fails_iff:
  "isl (o_res (purchaseGames toks slugs rnds net t)) \<longleftrightarrow>
     (\<exists>x\<in>set (o_calls (purchaseGames toks slugs rnds net t)). is_conn_error (snd (net (fst x) (snd x))))"
  by (auto simp: purchaseGames_apply join_isl_iff newPurchase_apply newPurchase_cb_isl)

end
