(* ===== verification/Orchestrator.thy ===== *)
theory Orchestrator
  imports Users Games Friends Purchases
begin

text \<open>
  The top level of \<^verbatim>\<open>src/scripts/db-prefill.js\<close> (lines 35--46 and 249--272): an optional
  Redis flush, then stage 1 (\<^verbatim>\<open>promiseMap({users: createUsers(), games: createGames()})\<close>),
  then stage 2 on its result (the slugs and tokens are read out, \<^verbatim>\<open>purchaseGames\<close> and
  \<^verbatim>\<open>createFriends\<close> are started and joined by \<^verbatim>\<open>promiseMap\<close>), then the summary line; a
  rejection anywhere is caught, printed, and ends the process with status 1. The
  configuration (user count, catalog, flush flag) and the random choices of
  \<^verbatim>\<open>_.sample\<close> are explicit arguments.
\<close>

record config =
  cfg_user_count :: nat
  cfg_games :: "form list"
  cfg_flush :: bool

record choices =
  friend_rnd :: "nat \<Rightarrow> nat \<Rightarrow> nat"
  purchase_rnd :: "nat \<Rightarrow> nat \<Rightarrow> nat"

text \<open>The script's own configuration; the flush flag comes from \<^verbatim>\<open>settings_local\<close>.\<close>

definition code_config :: "bool \<Rightarrow> config" where
  "code_config flush = \<lparr>cfg_user_count = USER_COUNT, cfg_games = FAKE_GAMES, cfg_flush = flush\<rparr>"

text \<open>\<^verbatim>\<open>result.games.map(function(json) { return json.slug; })\<close>.\<close>

fun game_slugs :: "jval list \<Rightarrow> exn + jsval list" where
  "game_slugs [] = Inr []"
| "game_slugs (g # gs) = ebind (get_prop (Some g) ''slug'') (\<lambda>s. ebind (game_slugs gs) (\<lambda>ss. Inr (s # ss)))"

definition stage1 :: "config \<Rightarrow> (user list \<times> jval list) ptask" where
  "stage1 cfg = t_pair (createUsers (cfg_user_count cfg)) (createGames (cfg_games cfg))"

text \<open>
  The first \<^verbatim>\<open>.then\<close> handler of \<^verbatim>\<open>run\<close>: slugs and tokens are read out, then
  \<^verbatim>\<open>purchaseGames\<close> is started before \<^verbatim>\<open>createFriends\<close>, and
  \<^verbatim>\<open>promiseMap({friends, purchases})\<close> joins the two.
\<close>

definition stage2 :: "config \<Rightarrow> choices \<Rightarrow> user list \<times> jval list \<Rightarrow> (edge list \<times> body list) ptask" where
  "stage2 cfg ch result = (case result of (users, games) \<Rightarrow>
     (case game_slugs games of
        Inl ex \<Rightarrow> t_lift (Inl (Rej (Thrown ex)))
      | Inr slugs \<Rightarrow>
          t_then (t_pair (purchaseGames (map u_token users) slugs (purchase_rnd ch))
                         (createFriends (cfg_user_count cfg) users (friend_rnd ch)))
            (\<lambda>(purchases, friends). Inr (friends, purchases))))"

text \<open>The summary line prints the configured counts: \<^verbatim>\<open>USER_COUNT\<close> and \<^verbatim>\<open>Object.keys(FAKE_GAMES).length\<close>.\<close>

definition run :: "config \<Rightarrow> choices \<Rightarrow> (nat \<times> nat) ptask" where
  "run cfg ch = t_then (t_bind (stage1 cfg) (stage2 cfg ch))
     (\<lambda>r. Inr (cfg_user_count cfg, length (cfg_games cfg)))"

text \<open>\<^verbatim>\<open>client.flushdb(function(){ client.end(); run(); })\<close>: the callback ignores its arguments.\<close>

definition flushdb_cb :: "response \<Rightarrow> failure + unit" where
  "flushdb_cb r = Inr ()"

definition prefill :: "config \<Rightarrow> choices \<Rightarrow> (nat \<times> nat) ptask" where
  "prefill cfg ch = (if cfg_flush cfg then t_bind (t_call FlushDb flushdb_cb) (\<lambda>u. run cfg ch) else run cfg ch)"

datatype exit_status = Done nat nat | Aborted reason | Crashed exn

definition prefill_exit :: "config \<Rightarrow> choices \<Rightarrow> pnet \<Rightarrow> exit_status" where
  "prefill_exit cfg ch net = (case o_res (prefill cfg ch net 0) of
      Inr (n, g) \<Rightarrow> Done n g
    | Inl (Rej r) \<Rightarrow> Aborted r
    | Inl (Crash ex) \<Rightarrow> Crashed ex)"

definition exit_code :: "exit_status \<Rightarrow> nat" where
  "exit_code s = (case s of Done n g \<Rightarrow> 0 | _ \<Rightarrow> 1)"

text \<open>When stage 1 starts: at once, or when the flush has answered.\<close>

definition stage1_start :: "config \<Rightarrow> pnet \<Rightarrow> nat" where
  "stage1_start cfg net = (if cfg_flush cfg then fst (net 0 FlushDb) else 0)"

definition stage2_endpoints :: "string set" where
  "stage2_endpoints = {API_ENDPOINT @ ''/user/friends/request'', API_ENDPOINT @ ''/user/friends/accept'',
     API_ENDPOINT @ ''/user/purchase''}"

text \<open>The scenario of the specification: two users, a one-game catalog, samples \<open>[0, 1]\<close> and \<open>[0]\<close>.\<close>

definition two_user_config :: config where
  "two_user_config = \<lparr>cfg_user_count = 2, cfg_games = [hd FAKE_GAMES], cfg_flush = False\<rparr>"

definition demo_choices :: choices where
  "demo_choices = \<lparr>friend_rnd = (\<lambda>i j. 0), purchase_rnd = (\<lambda>i j. 0)\<rparr>"

lemma stage1_apply:
  "stage1 cfg net t = par2 (createUsers (cfg_user_count cfg) net t) (createGames (cfg_games cfg) net t)"
  by (simp add: stage1_def t_pair_apply)

lemma stage1_endpoints:
  "c \<in> set (o_calls (stage1 cfg net t)) \<Longrightarrow> endpoint (snd c) \<notin> stage2_endpoints"
  by (auto simp: stage1_apply stage2_endpoints_def API_ENDPOINT_def PERSONA_ENDPOINT_def
      dest: createUsers_endpoints createGames_endpoints)

lemma task_wf_stage2 [wf_intros]: "task_wf (stage2 cfg ch r)"
  by (auto simp: stage2_def intro!: task_wf_lift task_wf_then task_wf_pair task_wf_createFriends task_wf_purchaseGames
      split: prod.split sum.split)

lemma stage2_endpoints:
  "c \<in> set (o_calls (stage2 cfg ch r net t)) \<Longrightarrow> endpoint (snd c) \<in> stage2_endpoints"
  by (auto simp: stage2_def stage2_endpoints_def t_lift_apply t_pair_apply
      dest: createFriends_endpoints purchaseGames_endpoints split: prod.splits sum.splits)

lemma run_calls:
  "o_calls (run cfg ch net t) = o_calls (stage1 cfg net t) @
     (case o_res (stage1 cfg net t) of Inl e \<Rightarrow> [] | Inr r \<Rightarrow> o_calls (stage2 cfg ch r net (o_time (stage1 cfg net t))))"
  by (simp add: run_def t_bind_apply split: sum.split)

lemma run_res_Inr:
  "o_res (run cfg ch net t) = Inr s \<Longrightarrow>
     \<exists>r p. o_res (stage1 cfg net t) = Inr r \<and> o_res (stage2 cfg ch r net (o_time (stage1 cfg net t))) = Inr p \<and>
       s = (cfg_user_count cfg, length (cfg_games cfg))"
  by (auto simp: run_def t_then_res t_bind_res_Inr ebind_eq_Inr)

lemma run_stage1_Inl:
  "isl (o_res (stage1 cfg net t)) \<Longrightarrow> isl (o_res (run cfg ch net t))"
  by (cases "o_res (stage1 cfg net t)") (simp_all add: run_def t_then_res t_bind_apply)

lemma prefill_calls:
  "o_calls (prefill cfg ch net 0) =
     (if cfg_flush cfg then [(0, FlushDb)] else []) @ o_calls (run cfg ch net (stage1_start cfg net))"
  by (simp add: prefill_def stage1_start_def t_bind_apply t_call_apply flushdb_cb_def)

lemma prefill_res:
  "o_res (prefill cfg ch net 0) = o_res (run cfg ch net (stage1_start cfg net))"
  by (simp add: prefill_def stage1_start_def t_bind_apply t_call_apply flushdb_cb_def)

lemma stage1_time_Inr:
  "o_res (stage1 cfg net t) = Inr r \<Longrightarrow>
     o_time (stage1 cfg net t) = max (o_time (createUsers (cfg_user_count cfg) net t)) (o_time (createGames (cfg_games cfg) net t))"
  by (cases "o_res (createUsers (cfg_user_count cfg) net t)"; cases "o_res (createGames (cfg_games cfg) net t)")
     (simp_all add: stage1_apply split: if_splits)

lemma task_wf_stage1 [wf_intros]: "task_wf (stage1 cfg)"
  by (simp add: stage1_def task_wf_pair task_wf_createUsers task_wf_createGames)

lemma task_wf_run [wf_intros]: "task_wf (run cfg ch)"
  by (simp add: run_def task_wf_then task_wf_bind task_wf_stage1 task_wf_stage2)

lemma users_fail_stage1:
  assumes "i < cfg_user_count cfg" "\<not> user_chain_ok net t i"
  shows "isl (o_res (stage1 cfg net t))"
proof -
  have "isl (o_res (user_chain i net t))" using assms(2) user_chain_ok_iff by blast
  then have "isl (o_res (createUsers (cfg_user_count cfg) net t))"
    using assms(1) join_isl_iff [of t "map (\<lambda>i. user_chain i net t) [0..<cfg_user_count cfg]"]
    by (auto simp: createUsers_apply)
  then show ?thesis by (simp add: stage1_apply par2_isl_iff)
qed

lemma run_no_flush: "c \<in> set (o_calls (run cfg ch net t)) \<Longrightarrow> snd c \<noteq> FlushDb"
  by (auto simp: run_calls stage1_apply API_ENDPOINT_def PERSONA_ENDPOINT_def
      dest: createUsers_endpoints createGames_endpoints stage2_endpoints [unfolded stage2_endpoints_def]
      split: sum.splits)

lemma createUsers_length: "o_res (createUsers n net t) = Inr us \<Longrightarrow> length us = n"
  by (auto simp: createUsers_apply join_Inr_iff dest: list_all2_lengthD)

lemma createGames_length: "o_res (createGames gs net t) = Inr vs \<Longrightarrow> length vs = length gs"
  by (auto simp: createGames_apply join_Inr_iff dest: list_all2_lengthD)

lemma prefill_res_Done:
  "prefill_exit cfg ch net = Done n g \<longleftrightarrow> o_res (prefill cfg ch net 0) = Inr (n, g)"
  by (auto simp: prefill_exit_def split: sum.split failure.split)

subsection \<open>A network that answers every request successfully\<close>

lemma createUsers_happy: "\<not> isl (o_res (createUsers n happy_net t))"
proof -
  have "user_chain_ok happy_net t i" for i
    by (rule user_chain_ok_intro) (simp_all add: happy_net_def happy_body_def gen_ok_def login_ok_def)
  then show ?thesis by (auto simp: createUsers_apply join_isl_iff user_chain_ok_iff)
qed

lemma createGames_happy:
  "o_res (createGames gs happy_net t) = Inr (map (\<lambda>g. happy_body (GameSubmit (game_form g))) gs)"
  by (simp add: createGames_apply join_Inr_iff list_all2_map1 list_all2_map2 submitGame_res happy_net_def
      list_all2_conv_all_nth)

lemma game_slugs_happy: "\<exists>ss. game_slugs (map (\<lambda>g. happy_body (GameSubmit (game_form g))) gs) = Inr ss"
  by (induction gs) (auto simp: happy_body_def)

lemma sendRequests_happy:
  "o_res (sendRequests uc users rnd u happy_net t) = Inr (map (Edge u) (lodash_sample users (friend_sample_size uc) rnd))"
  by (simp add: sendRequests_apply join_Inr_iff list_all2_map1 list_all2_map2 sendRequest_apply happy_net_def
      happy_body_def sendRequest_cb_def list_all2_conv_all_nth)

lemma userFriends_happy: "\<not> isl (o_res (userFriends uc users rnd u happy_net t))"
  by (simp add: userFriends_def t_bind_apply sendRequests_happy t_all_apply join_isl_iff t_call_apply
      acceptRequest_cb_def happy_net_def happy_body_def)

lemma createFriends_happy: "\<not> isl (o_res (createFriends uc users rnds happy_net t))"
  by (simp add: createFriends_def t_then_isl t_all_apply join_isl_iff userFriends_happy)

lemma purchaseGames_happy: "\<not> isl (o_res (purchaseGames toks slugs rnds happy_net t))"
  by (auto simp: purchaseGames_apply join_isl_iff newPurchase_apply newPurchase_cb_def happy_net_def)

lemma game_slugs_length: "game_slugs gs = Inr ss \<Longrightarrow> length ss = length gs"
  by (induction gs arbitrary: ss) (auto simp: ebind_eq_Inr)

lemma stage2_calls_Inr:
  "game_slugs gs = Inr ss \<Longrightarrow> o_calls (stage2 cfg ch (us, gs) net t) =
     o_calls (purchaseGames (map u_token us) ss (purchase_rnd ch) net t) @
     o_calls (createFriends (cfg_user_count cfg) us (friend_rnd ch) net t)"
  by (simp add: stage2_def t_pair_apply)

lemma prefill_filter_stage2:
  assumes "o_res (stage1 cfg net (stage1_start cfg net)) = Inr r" and "E \<in> stage2_endpoints"
  shows "[q \<leftarrow> map snd (o_calls (prefill cfg ch net 0)). endpoint q = E] =
     [q \<leftarrow> map snd (o_calls (stage2 cfg ch r net (o_time (stage1 cfg net (stage1_start cfg net))))). endpoint q = E]"
proof -
  have f: "endpoint FlushDb \<noteq> E" using assms(2) by (auto simp: stage2_endpoints_def API_ENDPOINT_def)
  have "[q \<leftarrow> map snd (o_calls (stage1 cfg net (stage1_start cfg net))). endpoint q = E] = []"
    using stage1_endpoints assms(2) by (force simp: filter_empty_conv)
  then show ?thesis using f assms(1) by (simp add: prefill_calls run_calls)
qed

lemma userFriends_happy_calls:
  "map snd (o_calls (userFriends uc users rnd u happy_net t)) =
     map (\<lambda>r. FriendRequest (u_token u) (u_id r)) (lodash_sample users (friend_sample_size uc) rnd) @
     map (\<lambda>r. FriendAccept (u_token r) (u_id u)) (lodash_sample users (friend_sample_size uc) rnd)"
  by (simp add: userFriends_calls sendRequests_happy acceptRequest_calls comp_def map_concat concat_map_singleton)

lemma createFriends_happy_accepts:
  "length [q \<leftarrow> map snd (o_calls (createFriends uc users rnds happy_net t)). endpoint q = API_ENDPOINT @ ''/user/friends/accept''] =
     length users * min (min 3 uc) (length users)"
proof -
  have acc: "[q \<leftarrow> map snd (o_calls (userFriends uc users rnd u happy_net t)). endpoint q = API_ENDPOINT @ ''/user/friends/accept''] =
      map (\<lambda>r. FriendAccept (u_token r) (u_id u)) (lodash_sample users (friend_sample_size uc) rnd)" for rnd u
    by (simp add: userFriends_happy_calls comp_def API_ENDPOINT_def)
  have "length (concat (map (\<lambda>i. map (\<lambda>r. FriendAccept (u_token r) (u_id (users ! i)))
      (lodash_sample users (friend_sample_size uc) (rnds i))) [0..<length users])) =
      min (min 3 uc) (length users) * length [0..<length users]"
    by (rule length_concat_map_const) (simp add: friend_sample_size_def)
  then show ?thesis
    by (simp add: createFriends_calls map_concat filter_concat acc comp_def mult.commute)
qed

subsection \<open>A network whose only fault is one login answered with non-JSON text\<close>

lemma user_chain_login_fault:
  "o_res (user_chain j (net_with happy_net (Login (Some (JStr (user_email i))) API_ENDPOINT) (Resp (NotJSON s))) t) =
     (if j = i then Inl (Crash SyntaxError)
      else Inr \<lparr>u_email = user_email j, u_token = Some (JStr ''ssa''), u_username = Some (JStr ''test''),
                u_id = Some (JNum 1)\<rparr>)"
  by (simp add: user_chain_def t_bind_apply createUser_apply login_apply net_with_def happy_net_def
      happy_body_def createUser_cb_def login_cb_def user_email_eq_iff)

lemma submitGame_net_cong:
  assumes "\<And>s. net s (GameSubmit (game_form g)) = net' s (GameSubmit (game_form g))"
  shows "submitGame g net t = submitGame g net' t"
  by (simp add: submitGame_def t_then_def t_bind_apply t_call_apply t_lift_apply assms split: sum.split)

lemma createGames_login_fault:
  "createGames gs (net_with happy_net (Login a aud) r) t = createGames gs happy_net t"
proof -
  have "submitGame g (net_with happy_net (Login a aud) r) t = submitGame g happy_net t" for g
    by (rule submitGame_net_cong) (simp add: net_with_def)
  then show ?thesis by (simp add: createGames_apply)
qed

text \<open>
  C17: stage 2 never starts before stage 1 has settled: every friend request, accept
  and purchase the run sends is sent no earlier than the moment both
  \<open>createUsers\<close> and \<open>createGames\<close> have settled (a strict join, not the first to
  complete).
\<close>

theorem prefill_stage_order:
  assumes "c \<in> set (o_calls (prefill cfg ch net 0))" and "endpoint (snd c) \<in> stage2_endpoints"
  shows "o_time (createUsers (cfg_user_count cfg) net (stage1_start cfg net)) \<le> fst c \<and>
     o_time (createGames (cfg_games cfg) net (stage1_start cfg net)) \<le> fst c"
proof -
  let ?t1 = "stage1_start cfg net"
  have "endpoint FlushDb \<notin> stage2_endpoints" by (simp add: stage2_endpoints_def API_ENDPOINT_def)
  with assms have c: "c \<in> set (o_calls (run cfg ch net ?t1))"
    by (auto simp: prefill_calls split: if_splits)
  have "c \<notin> set (o_calls (stage1 cfg net ?t1))" using assms(2) stage1_endpoints by blast
  with c obtain r where r: "o_res (stage1 cfg net ?t1) = Inr r"
    and c2: "c \<in> set (o_calls (stage2 cfg ch r net (o_time (stage1 cfg net ?t1))))"
  proof (cases "o_res (stage1 cfg net ?t1)")
    case (Inl f)
    with c \<open>c \<notin> set (o_calls (stage1 cfg net ?t1))\<close> show ?thesis by (simp add: run_calls)
  next
    case (Inr r)
    with c \<open>c \<notin> set (o_calls (stage1 cfg net ?t1))\<close> show ?thesis
      by (intro that [of r]) (simp_all add: run_calls)
  qed
  have "o_time (stage1 cfg net ?t1) \<le> fst c"
    using task_wfD(2) [OF task_wf_stage2 c2] .
  with stage1_time_Inr [OF r] show ?thesis by simp
qed

theorem prefill_stage_order_witness:
  "(2, FriendRequest (Some (JStr ''ssa'')) (Some (JNum 1))) \<in> set (o_calls (prefill two_user_config demo_choices happy_net 0)) \<and>
   o_time (createUsers 2 happy_net 0) \<le> 2 \<and> o_time (createGames [hd FAKE_GAMES] happy_net 0) \<le> 2"
proof -
  have c: "(2, FriendRequest (Some (JStr ''ssa'')) (Some (JNum 1))) \<in> set (o_calls (prefill two_user_config demo_choices happy_net 0))"
    by code_simp
  have e: "endpoint (snd (2::nat, FriendRequest (Some (JStr ''ssa'')) (Some (JNum 1)))) \<in> stage2_endpoints"
    by (simp add: stage2_endpoints_def)
  from prefill_stage_order [OF c e] show ?thesis using c
    by (simp add: two_user_config_def stage1_start_def)
qed

text \<open>
  C18: if the chain of any identity fails in stage 1 (for instance the login of the
  fifth of a hundred identities meets a transport error), the run ends with status 1
  and never sends a friend request, an accept or a purchase.
\<close>

theorem prefill_users_fail_abort:
  assumes "i < cfg_user_count cfg" and "\<not> user_chain_ok net (stage1_start cfg net) i"
  shows "(\<forall>c\<in>set (o_calls (prefill cfg ch net 0)). endpoint (snd c) \<notin> stage2_endpoints) \<and>
     exit_code (prefill_exit cfg ch net) = 1"
proof -
  let ?t1 = "stage1_start cfg net"
  have s1: "isl (o_res (stage1 cfg net ?t1))" using users_fail_stage1 [OF assms] .
  then obtain f where f: "o_res (stage1 cfg net ?t1) = Inl f" by (cases "o_res (stage1 cfg net ?t1)") auto
  have "endpoint FlushDb \<notin> stage2_endpoints" by (simp add: stage2_endpoints_def API_ENDPOINT_def)
  then have calls: "\<forall>c\<in>set (o_calls (prefill cfg ch net 0)). endpoint (snd c) \<notin> stage2_endpoints"
    using f stage1_endpoints by (auto simp: prefill_calls run_calls)
  have "isl (o_res (prefill cfg ch net 0))" using run_stage1_Inl [OF s1] by (simp add: prefill_res)
  then have "exit_code (prefill_exit cfg ch net) = 1"
    by (auto simp: prefill_exit_def exit_code_def split: sum.splits failure.splits)
  with calls show ?thesis by blast
qed

theorem prefill_users_fail_abort_witness:
  "filter (\<lambda>c. endpoint (snd c) \<in> stage2_endpoints) (o_calls (prefill (code_config False) demo_choices
       (net_with happy_net (Login (Some (JStr (user_email 4))) API_ENDPOINT) (ConnError ''ECONNRESET'')) 0)) = [] \<and>
   exit_code (prefill_exit (code_config False) demo_choices
       (net_with happy_net (Login (Some (JStr (user_email 4))) API_ENDPOINT) (ConnError ''ECONNRESET''))) = 1"
proof -
  let ?net = "net_with happy_net (Login (Some (JStr (user_email 4))) API_ENDPOINT) (ConnError ''ECONNRESET'')"
  have i: "4 < cfg_user_count (code_config False)" by (simp add: code_config_def USER_COUNT_def)
  have "\<not> user_chain_ok ?net 0 4" by code_simp
  then have u: "\<not> user_chain_ok ?net (stage1_start (code_config False) ?net) 4"
    by (simp add: stage1_start_def code_config_def)
  show ?thesis using prefill_users_fail_abort [OF i u] by (simp add: filter_empty_conv)
qed

text \<open>
  C19: on a network that answers every request successfully (\<open>happy_net\<close>), the
  script ends with the summary line and status 0 for every
  configuration and every outcome of the random samples: no stage waits forever
  and no callback throws.
\<close>

theorem prefill_happy_done:
  "prefill_exit cfg ch happy_net = Done (cfg_user_count cfg) (length (cfg_games cfg))"
proof -
  let ?t = "stage1_start cfg happy_net"
  let ?gs = "map (\<lambda>g. happy_body (GameSubmit (game_form g))) (cfg_games cfg)"
  obtain us where us: "o_res (createUsers (cfg_user_count cfg) happy_net ?t) = Inr us"
    using createUsers_happy [of "cfg_user_count cfg" ?t]
    by (cases "o_res (createUsers (cfg_user_count cfg) happy_net ?t)") simp_all
  have s1: "o_res (stage1 cfg happy_net ?t) = Inr (us, ?gs)"
    by (simp add: stage1_apply us createGames_happy)
  obtain ss where ss: "game_slugs ?gs = Inr ss" using game_slugs_happy by blast
  have s2: "\<not> isl (o_res (stage2 cfg ch (us, ?gs) happy_net (o_time (stage1 cfg happy_net ?t))))"
    by (simp add: stage2_def ss t_then_isl t_pair_apply createFriends_happy purchaseGames_happy)
  then show ?thesis
    by (cases "o_res (stage2 cfg ch (us, ?gs) happy_net (o_time (stage1 cfg happy_net ?t)))")
       (simp_all add: prefill_res_Done prefill_res run_def t_then_res t_bind_apply s1)
qed

text \<open>
  C20: when the script ends with the summary line, the counts it prints are the
  real ones: \<open>createUsers\<close> resolved with exactly that many sessions and
  \<open>createGames\<close> with exactly that many parsed submissions.
\<close>

theorem prefill_done_counts:
  assumes "prefill_exit cfg ch net = Done n g"
  shows "\<exists>us gs. o_res (createUsers (cfg_user_count cfg) net (stage1_start cfg net)) = Inr us \<and> length us = n \<and>
     o_res (createGames (cfg_games cfg) net (stage1_start cfg net)) = Inr gs \<and> length gs = g"
proof -
  from assms have "o_res (run cfg ch net (stage1_start cfg net)) = Inr (n, g)"
    by (simp add: prefill_res_Done prefill_res)
  from run_res_Inr [OF this] obtain r where
    r: "o_res (stage1 cfg net (stage1_start cfg net)) = Inr r" and
    ng: "n = cfg_user_count cfg" "g = length (cfg_games cfg)" by auto
  from r show ?thesis using ng
    by (auto simp: stage1_apply dest: createUsers_length createGames_length)
qed

theorem prefill_done_counts_witness:
  "prefill_exit two_user_config demo_choices happy_net = Done 2 1 \<and>
   (\<exists>us gs. o_res (createUsers 2 happy_net 0) = Inr us \<and> length us = 2 \<and>
     o_res (createGames [hd FAKE_GAMES] happy_net 0) = Inr gs \<and> length gs = 1)"
proof -
  have d: "prefill_exit two_user_config demo_choices happy_net = Done 2 1" by code_simp
  show ?thesis using prefill_done_counts [OF d] d by (simp add: two_user_config_def stage1_start_def)
qed

text \<open>
  C21: with the flush enabled, the Redis flush is the first command, at time 0,
  it is sent once, and every request of the run is sent no earlier than the flush
  has answered (\<^verbatim>\<open>run()\<close> is called from the flush callback).
\<close>

theorem prefill_flush_first:
  assumes "cfg_flush cfg"
  shows "\<exists>cs. o_calls (prefill cfg ch net 0) = (0, FlushDb) # cs \<and>
     (\<forall>c\<in>set cs. fst (net 0 FlushDb) \<le> fst c \<and> snd c \<noteq> FlushDb)"
proof -
  have t: "stage1_start cfg net = fst (net 0 FlushDb)" using assms by (simp add: stage1_start_def)
  have "\<forall>c\<in>set (o_calls (run cfg ch net (fst (net 0 FlushDb)))). fst (net 0 FlushDb) \<le> fst c \<and> snd c \<noteq> FlushDb"
    using task_wfD(2) [OF task_wf_run] run_no_flush by blast
  with assms t show ?thesis by (simp add: prefill_calls)
qed

theorem prefill_flush_first_witness:
  "cfg_flush (two_user_config\<lparr>cfg_flush := True\<rparr>) \<and>
   (\<exists>cs. o_calls (prefill (two_user_config\<lparr>cfg_flush := True\<rparr>) demo_choices happy_net 0) = (0, FlushDb) # cs \<and>
     filter (\<lambda>c. fst c < 1 \<or> snd c = FlushDb) cs = [])"
proof -
  have f: "cfg_flush (two_user_config\<lparr>cfg_flush := True\<rparr>)" by simp
  from prefill_flush_first [OF f, of demo_choices happy_net] show ?thesis
    by (fastforce simp: happy_net_def filter_empty_conv Suc_le_eq)
qed

text \<open>
  C22: on a network that answers every request successfully, whatever the
  configuration and the random draws, the run sends \<open>n * min 3 n\<close> friend requests
  for \<open>n\<close> users (each user samples \<^verbatim>\<open>Math.min(3, USER_COUNT)\<close> peers among all
  users, itself included), accepts every one of them, and sends
  \<open>n * min 2 g\<close> purchases for \<open>g\<close> games. For the specification's two users and one
  game that is four requests, four accepts and two purchases.
\<close>

theorem prefill_happy_counts:
  "length [q \<leftarrow> map snd (o_calls (prefill cfg ch happy_net 0)). endpoint q = API_ENDPOINT @ ''/user/friends/request''] =
     cfg_user_count cfg * min 3 (cfg_user_count cfg) \<and>
   length [q \<leftarrow> map snd (o_calls (prefill cfg ch happy_net 0)). endpoint q = API_ENDPOINT @ ''/user/friends/accept''] =
     cfg_user_count cfg * min 3 (cfg_user_count cfg) \<and>
   length [q \<leftarrow> map snd (o_calls (prefill cfg ch happy_net 0)). endpoint q = API_ENDPOINT @ ''/user/purchase''] =
     cfg_user_count cfg * min 2 (length (cfg_games cfg))"
proof -
  let ?n = "cfg_user_count cfg"
  let ?t = "stage1_start cfg happy_net"
  let ?gs = "map (\<lambda>g. happy_body (GameSubmit (game_form g))) (cfg_games cfg)"
  obtain us where us: "o_res (createUsers ?n happy_net ?t) = Inr us"
    using createUsers_happy [of ?n ?t] by (cases "o_res (createUsers ?n happy_net ?t)") simp_all
  have n: "length us = ?n" using createUsers_length [OF us] .
  have s1: "o_res (stage1 cfg happy_net ?t) = Inr (us, ?gs)"
    by (simp add: stage1_apply us createGames_happy)
  obtain ss where ss: "game_slugs ?gs = Inr ss" using game_slugs_happy by blast
  have g: "length ss = length (cfg_games cfg)" using game_slugs_length [OF ss] by simp
  let ?s = "o_time (stage1 cfg happy_net ?t)"
  let ?P = "purchaseGames (map u_token us) ss (purchase_rnd ch) happy_net ?s"
  let ?F = "createFriends ?n us (friend_rnd ch) happy_net ?s"
  have calls: "map snd (o_calls (stage2 cfg ch (us, ?gs) happy_net ?s)) = map snd (o_calls ?P) @ map snd (o_calls ?F)"
    by (simp add: stage2_calls_Inr [OF ss])
  have pe: "\<forall>q\<in>set (map snd (o_calls ?P)). endpoint q = API_ENDPOINT @ ''/user/purchase''"
    using purchaseGames_endpoints by fastforce
  have fe: "\<forall>q\<in>set (map snd (o_calls ?F)). endpoint q \<noteq> API_ENDPOINT @ ''/user/purchase''"
    using createFriends_endpoints by (fastforce simp: API_ENDPOINT_def)
  have E: "API_ENDPOINT @ ''/user/friends/request'' \<in> stage2_endpoints"
    "API_ENDPOINT @ ''/user/friends/accept'' \<in> stage2_endpoints"
    "API_ENDPOINT @ ''/user/purchase'' \<in> stage2_endpoints"
    by (simp_all add: stage2_endpoints_def)
  have pr: "[q \<leftarrow> map snd (o_calls ?P). endpoint q = API_ENDPOINT @ ''/user/friends/request''] = []"
    "[q \<leftarrow> map snd (o_calls ?P). endpoint q = API_ENDPOINT @ ''/user/friends/accept''] = []"
    using pe by (auto simp: filter_empty_conv API_ENDPOINT_def)
  have fp: "[q \<leftarrow> map snd (o_calls ?F). endpoint q = API_ENDPOINT @ ''/user/purchase''] = []"
    using fe by (simp add: filter_empty_conv)
  have pp: "[q \<leftarrow> map snd (o_calls ?P). endpoint q = API_ENDPOINT @ ''/user/purchase''] = map snd (o_calls ?P)"
    using pe by (simp add: filter_id_conv)
  have m: "min (min 3 ?n) ?n = min 3 ?n" by simp
  show ?thesis
    using prefill_filter_stage2 [OF s1 E(1), of ch] prefill_filter_stage2 [OF s1 E(2), of ch]
      prefill_filter_stage2 [OF s1 E(3), of ch]
      createFriends_requests_length [of ?n us "friend_rnd ch" happy_net ?s]
      createFriends_happy_accepts [of ?n us "friend_rnd ch" ?s]
      purchaseGames_calls_length [of "map u_token us" ss "purchase_rnd ch" happy_net ?s]
    by (simp add: calls pr fp pp n g m)
qed

text \<open>
  C23: a login answered with a body that is not JSON makes \<^verbatim>\<open>JSON.parse\<close> throw inside
  the request callback: for every configuration, every identity and every random
  draw, when that is the only fault the exception is not turned into a rejection,
  the \<^verbatim>\<open>.catch\<close> of the run never sees it, and the process dies with the
  \<open>SyntaxError\<close> without sending any friend request, accept or purchase.
\<close>

theorem prefill_login_not_json_crash:
  assumes "i < cfg_user_count cfg"
  shows "prefill_exit cfg ch (net_with happy_net (Login (Some (JStr (user_email i))) API_ENDPOINT) (Resp (NotJSON s))) =
      Crashed SyntaxError \<and>
    [q \<leftarrow> map snd (o_calls (prefill cfg ch (net_with happy_net (Login (Some (JStr (user_email i))) API_ENDPOINT)
       (Resp (NotJSON s))) 0)). endpoint q \<in> stage2_endpoints] = []"
proof -
  let ?net = "net_with happy_net (Login (Some (JStr (user_email i))) API_ENDPOINT) (Resp (NotJSON s))"
  let ?t = "stage1_start cfg ?net"
  let ?U = "createUsers (cfg_user_count cfg) ?net ?t"
  have "isl (o_res ?U)"
    using assms join_isl_iff [of ?t "map (\<lambda>j. user_chain j ?net ?t) [0..<cfg_user_count cfg]"]
    by (force simp: createUsers_apply user_chain_login_fault)
  then obtain e where e: "o_res ?U = Inl e" by (cases "o_res ?U") auto
  then obtain j where "j < cfg_user_count cfg" "o_res (user_chain j ?net ?t) = Inl e"
    using join_Inl_earliest [of ?t "map (\<lambda>j. user_chain j ?net ?t) [0..<cfg_user_count cfg]" e]
    by (auto simp: createUsers_apply)
  then have eU: "o_res ?U = Inl (Crash SyntaxError)"
    using e by (simp add: user_chain_login_fault split: if_splits)
  have s1: "o_res (stage1 cfg ?net ?t) = Inl (Crash SyntaxError)"
    using createGames_happy [of "cfg_games cfg" ?t]
    by (simp add: stage1_apply eU createGames_login_fault)
  have "endpoint FlushDb \<notin> stage2_endpoints" by (simp add: stage2_endpoints_def API_ENDPOINT_def)
  then have calls: "[q \<leftarrow> map snd (o_calls (prefill cfg ch ?net 0)). endpoint q \<in> stage2_endpoints] = []"
    using s1 stage1_endpoints by (force simp: prefill_calls run_calls filter_empty_conv)
  have "prefill_exit cfg ch ?net = Crashed SyntaxError"
    using s1 by (simp add: prefill_exit_def prefill_res run_def t_then_res t_bind_apply)
  with calls show ?thesis by blast
qed

theorem prefill_login_not_json_crash_witness:
  "prefill_exit (code_config False) demo_choices
     (net_with happy_net (Login (Some (JStr (user_email 4))) API_ENDPOINT) (Resp (NotJSON ''<html>''))) =
     Crashed SyntaxError"
proof -
  have "4 < cfg_user_count (code_config False)" by (simp add: code_config_def USER_COUNT_def)
  from prefill_login_not_json_crash [OF this, of demo_choices "''<html>''"] show ?thesis by blast
qed

end
