(* ===== verification/Handlers.thy ===== *)
theory Handlers
  imports Json
begin

text \<open>
  The two route handlers of the API that the prefill script talks to.
  \<^verbatim>\<open>src/views/user/purchase.js\<close> (POST \<^verbatim>\<open>/user/purchase\<close>): checks the user
  through \<^verbatim>\<open>auth.confirmSSA\<close> and the game parameter, answering 403 when one is
  bad, opens a Redis client and sends \<^verbatim>\<open>SADD gamesPurchased:<email> <game>\<close>; its
  callback answers 500 on a database error (leaving the client open) and otherwise
  closes the client and answers \<^verbatim>\<open>{success: true}\<close>. The 403 branches have no
  \<^verbatim>\<open>return\<close>: the handler goes on.
  \<^verbatim>\<open>src/views/game/detail.js\<close> (GET \<^verbatim>\<open>/game/:slug/detail\<close>): answers 400 without
  a slug, otherwise looks the game up and answers 500 when the lookup yields a falsy
  value and the game otherwise, calling \<^verbatim>\<open>done()\<close> on every branch.

  The server is a state: the Redis sets, the log of \<^verbatim>\<open>res.json\<close> calls (tagged with
  their request), the requests whose handler or callback ended in an exception, the
  number of open Redis clients, the \<^verbatim>\<open>SADD\<close> commands whose callback has not run
  yet, and the next request number. Only the first \<^verbatim>\<open>res.json\<close> of a request
  reaches the client: a later one finds the headers sent and throws, which ends the
  handler or callback that made it. A request runs its synchronous part at once; the
  callbacks of pending commands run later, in any order, interleaved with further
  requests (\<open>srv_step\<close>). The route's \<^verbatim>\<open>validation\<close> metadata (lines 15--24) is
  enforced by a plugin outside \<^verbatim>\<open>src/\<close>; it enters as a predicate \<open>valid\<close> on the
  parameters that a request must satisfy to reach the handler, and every result
  holds for every such predicate. \<^verbatim>\<open>auth.confirmSSA\<close> and
  \<^verbatim>\<open>gamelib.getGameFromSlug\<close> are not in \<^verbatim>\<open>src/\<close> either: they are parameters.
\<close>

type_synonym params = "(string \<times> string) list"

text \<open>A \<^verbatim>\<open>res.json\<close> call: request number, status code and JSON body.\<close>

type_synonym reply = "nat \<times> nat \<times> jval"

record server =
  sv_sets :: "string \<Rightarrow> string set"
  sv_out :: "reply list"
  sv_thrown :: "nat list"
  sv_clients :: nat
  sv_pending :: "(nat \<times> string \<times> string) list"
  sv_next :: nat

definition init_server :: server where
  "init_server = \<lparr>sv_sets = (\<lambda>k. {}), sv_out = [], sv_thrown = [], sv_clients = 0, sv_pending = [], sv_next = 0\<rparr>"

definition answered :: "nat \<Rightarrow> server \<Rightarrow> bool" where
  "answered rid s \<longleftrightarrow> rid \<in> set (map fst (sv_out s))"

text \<open>
  \<^verbatim>\<open>res.json(status, body)\<close>: logged; \<open>Inl\<close> when it throws because the request was
  already answered, \<open>Inr\<close> when execution goes on.
\<close>

definition respond :: "nat \<Rightarrow> nat \<Rightarrow> jval \<Rightarrow> server \<Rightarrow> server + server" where
  "respond rid status j s = (let s' = s\<lparr>sv_out := sv_out s @ [(rid, status, j)]\<rparr> in
     if answered rid s then Inl s' else Inr s')"

text \<open>An exception escaping the handler or callback of request \<open>rid\<close> is recorded; otherwise the state is kept.\<close>

definition finish :: "nat \<Rightarrow> server + server \<Rightarrow> server" where
  "finish rid r = (case r of Inl s \<Rightarrow> s\<lparr>sv_thrown := sv_thrown s @ [rid]\<rparr> | Inr s \<Rightarrow> s)"

definition err_body :: "string \<Rightarrow> jval" where
  "err_body e = JObj [(''error'', JStr e)]"

definition success_body :: jval where
  "success_body = JObj [(''success'', JBool True)]"

text \<open>\<^verbatim>\<open>!v\<close> for a request parameter: absent or empty.\<close>

definition param_falsy :: "string option \<Rightarrow> bool" where
  "param_falsy v = (v = None \<or> v = Some [])"

text \<open>
  \<^verbatim>\<open>if (!user || !(email = auth.confirmSSA(user)))\<close>: whether the user is bad and the
  value \<^verbatim>\<open>email\<close> holds afterwards (\<open>undefined\<close> when the first disjunct short-cuts).
\<close>

definition check_user :: "(string \<Rightarrow> jsval) \<Rightarrow> string option \<Rightarrow> bool \<times> jsval" where
  "check_user confirmSSA user = (case user of
      None \<Rightarrow> (True, None)
    | Some u \<Rightarrow> if u = [] then (True, None) else (let e = confirmSSA u in (\<not> truthy e, e)))"

text \<open>The synchronous part of the purchase handler, for request number \<open>sv_next\<close>.\<close>

definition purchase_req :: "(string \<Rightarrow> jsval) \<Rightarrow> params \<Rightarrow> server \<Rightarrow> server" where
  "purchase_req confirmSSA POST s = (let rid = sv_next s; s0 = s\<lparr>sv_next := rid + 1\<rparr>;
      (bad_user, email) = check_user confirmSSA (map_of POST ''user'');
      game = map_of POST ''game''
    in finish rid
      (ebind (if bad_user then respond rid 403 (err_body ''bad_user'') s0 else Inr s0) (\<lambda>s1.
       ebind (if param_falsy game then respond rid 403 (err_body ''bad_game'') s1 else Inr s1) (\<lambda>s2.
       Inr (s2\<lparr>sv_clients := sv_clients s2 + 1,
               sv_pending := sv_pending s2 @
                 [(rid, ''gamesPurchased:'' @ js_string email, js_string (map_option JStr game))]\<rparr>)))))"

text \<open>The callback of the \<open>i\<close>-th pending \<^verbatim>\<open>SADD\<close>, with the error flag the database reports.\<close>

definition sadd_cb :: "nat \<Rightarrow> bool \<Rightarrow> server \<Rightarrow> server" where
  "sadd_cb i err s = (case sv_pending s ! i of (rid, key, member) \<Rightarrow>
     let s' = s\<lparr>sv_pending := take i (sv_pending s) @ drop (Suc i) (sv_pending s)\<rparr> in
     finish rid
       (if err then respond rid 500 (err_body ''internal_db_error'') s'
        else respond rid 200 success_body
               (s'\<lparr>sv_sets := (sv_sets s')(key := insert member (sv_sets s' key)),
                   sv_clients := sv_clients s' - 1\<rparr>)))"

inductive srv_step :: "(params \<Rightarrow> bool) \<Rightarrow> (string \<Rightarrow> jsval) \<Rightarrow> server \<Rightarrow> server \<Rightarrow> bool" where
  request: "valid POST \<Longrightarrow> srv_step valid confirmSSA s (purchase_req confirmSSA POST s)"
| reply: "i < length (sv_pending s) \<Longrightarrow> srv_step valid confirmSSA s (sadd_cb i err s)"

definition srv_reachable :: "(params \<Rightarrow> bool) \<Rightarrow> (string \<Rightarrow> jsval) \<Rightarrow> server \<Rightarrow> bool" where
  "srv_reachable valid confirmSSA s = (srv_step valid confirmSSA)\<^sup>*\<^sup>* init_server s"

text \<open>The \<^verbatim>\<open>res.json\<close> calls of one request; the first is the reply the client receives.\<close>

definition replies_for :: "nat \<Rightarrow> server \<Rightarrow> (nat \<times> jval) list" where
  "replies_for rid s = map snd (filter (\<lambda>r. fst r = rid) (sv_out s))"

definition count_status :: "nat \<Rightarrow> server \<Rightarrow> nat" where
  "count_status st s = length (filter (\<lambda>r. fst (snd r) = st) (sv_out s))"

definition pending_rids :: "server \<Rightarrow> nat list" where
  "pending_rids s = map fst (sv_pending s)"

text \<open>
  The invariant of the server: pending commands belong to distinct issued requests;
  a request not yet issued has no \<^verbatim>\<open>res.json\<close> call; an issued one has at most two,
  has at least one once no command of it is pending, and has thrown exactly when it
  has two; the open Redis clients are the pending commands plus one per
  \<^verbatim>\<open>res.json(500)\<close>.
\<close>

definition srv_inv :: "server \<Rightarrow> bool" where
  "srv_inv s \<longleftrightarrow> distinct (pending_rids s) \<and> (\<forall>rid\<in>set (pending_rids s). rid < sv_next s) \<and>
     (\<forall>rid. sv_next s \<le> rid \<longrightarrow> replies_for rid s = [] \<and> rid \<notin> set (sv_thrown s)) \<and>
     (\<forall>rid<sv_next s. length (replies_for rid s) \<le> 2 \<and>
        (rid \<notin> set (pending_rids s) \<longrightarrow> replies_for rid s \<noteq> []) \<and>
        (rid \<in> set (pending_rids s) \<longrightarrow> length (replies_for rid s) \<le> 1) \<and>
        (rid \<in> set (sv_thrown s) \<longleftrightarrow> length (replies_for rid s) = 2)) \<and>
     sv_clients s = length (sv_pending s) + count_status 500 s"

subsection \<open>Game detail\<close>

text \<open>
  \<^verbatim>\<open>db.redisView(function(client, done, req, res, wrap) {...})\<close>: the responses written
  and the number of \<^verbatim>\<open>done()\<close> calls, for the slug parameter and the value the
  lookup passes to its callback.
\<close>

definition detail :: "(string \<Rightarrow> jsval) \<Rightarrow> string option \<Rightarrow> (nat \<times> jsval) list \<times> nat" where
  "detail getGameFromSlug slug =
     (if param_falsy slug then ([(400, Some (err_body ''bad_game''))], 1)
      else (let game = getGameFromSlug (the slug) in
            if \<not> truthy game then ([(500, Some (err_body ''db_error''))], 1)
            else ([(200, game)], 1)))"

subsection \<open>Purchase handler: evaluation and invariant\<close>

lemma init_server_simps [simp]:
  "sv_sets init_server = (\<lambda>k. {})" "sv_out init_server = []" "sv_thrown init_server = []"
  "sv_clients init_server = 0" "sv_pending init_server = []" "sv_next init_server = 0"
  by (simp_all add: init_server_def)

lemma purchase_req_simps:
  assumes "\<not> answered (sv_next s) s"
  shows "sv_out (purchase_req c P s) = sv_out s @
      (if fst (check_user c (map_of P ''user'')) then [(sv_next s, 403, err_body ''bad_user'')] else []) @
      (if param_falsy (map_of P ''game'') then [(sv_next s, 403, err_body ''bad_game'')] else [])"
    "sv_thrown (purchase_req c P s) = sv_thrown s @
      (if fst (check_user c (map_of P ''user'')) \<and> param_falsy (map_of P ''game'') then [sv_next s] else [])"
    "sv_pending (purchase_req c P s) = sv_pending s @
      (if fst (check_user c (map_of P ''user'')) \<and> param_falsy (map_of P ''game'') then []
       else [(sv_next s, ''gamesPurchased:'' @ js_string (snd (check_user c (map_of P ''user''))),
              js_string (map_option JStr (map_of P ''game'')))])"
    "sv_clients (purchase_req c P s) = sv_clients s +
      (if fst (check_user c (map_of P ''user'')) \<and> param_falsy (map_of P ''game'') then 0 else 1)"
    "sv_sets (purchase_req c P s) = sv_sets s"
    "sv_next (purchase_req c P s) = Suc (sv_next s)"
  using assms
  by (cases "check_user c (map_of P ''user'')";
      simp add: purchase_req_def respond_def finish_def answered_def Let_def split: if_splits)+

lemma sadd_cb_simps:
  assumes "sv_pending s ! i = (rid, key, member)"
  shows "sv_out (sadd_cb i err s) = sv_out s @
      [(rid, if err then 500 else 200, if err then err_body ''internal_db_error'' else success_body)]"
    "sv_thrown (sadd_cb i err s) = sv_thrown s @ (if answered rid s then [rid] else [])"
    "sv_pending (sadd_cb i err s) = take i (sv_pending s) @ drop (Suc i) (sv_pending s)"
    "sv_sets (sadd_cb i err s) = (if err then sv_sets s else (sv_sets s)(key := insert member (sv_sets s key)))"
    "sv_clients (sadd_cb i err s) = (if err then sv_clients s else sv_clients s - 1)"
    "sv_next (sadd_cb i err s) = sv_next s"
  using assms by (simp_all add: sadd_cb_def respond_def finish_def answered_def Let_def split: sum.split)

lemma answered_iff: "answered rid s \<longleftrightarrow> replies_for rid s \<noteq> []"
  by (auto simp: answered_def replies_for_def filter_empty_conv)

lemma replies_for_snoc:
  "replies_for r (s\<lparr>sv_out := sv_out s @ xs\<rparr>) = replies_for r s @ map snd (filter (\<lambda>x. fst x = r) xs)"
  by (simp add: replies_for_def)

lemma srv_inv_init: "srv_inv init_server"
  by (simp add: srv_inv_def pending_rids_def replies_for_def count_status_def)

lemma srv_inv_request:
  assumes inv: "srv_inv s"
  shows "srv_inv (purchase_req c P s)"
proof -
  let ?rid = "sv_next s"
  have fresh: "\<not> answered ?rid s" and nt: "?rid \<notin> set (sv_thrown s)"
    using inv by (simp_all add: srv_inv_def answered_iff)
  have np: "?rid \<notin> set (pending_rids s)" using inv by (auto simp: srv_inv_def)
  have out: "replies_for r (purchase_req c P s) = replies_for r s @
      (if r = ?rid then (if fst (check_user c (map_of P ''user'')) then [(403, err_body ''bad_user'')] else []) @
         (if param_falsy (map_of P ''game'') then [(403, err_body ''bad_game'')] else []) else [])" for r
    by (simp add: replies_for_def purchase_req_simps [OF fresh])
  have old: "replies_for ?rid s = []" using inv by (simp add: srv_inv_def)
  show ?thesis
    using inv np nt old
    by (auto simp: srv_inv_def out purchase_req_simps [OF fresh] pending_rids_def count_status_def
        less_Suc_eq)
qed

lemma srv_inv_reply:
  assumes inv: "srv_inv s" and i: "i < length (sv_pending s)"
  shows "srv_inv (sadd_cb i err s)"
proof -
  obtain rid key member where p: "sv_pending s ! i = (rid, key, member)" by (cases "sv_pending s ! i") auto
  have r: "pending_rids s ! i = rid" using p i by (simp add: pending_rids_def)
  have rin: "rid \<in> set (pending_rids s)" using r i by (auto simp: pending_rids_def)
  have dl: "distinct (pending_rids (sadd_cb i err s)) \<and>
      set (pending_rids (sadd_cb i err s)) = set (pending_rids s) - {rid}"
    using set_take_drop_Suc [of "pending_rids s" i] inv i r
    by (simp add: srv_inv_def pending_rids_def sadd_cb_simps [OF p] take_map drop_map)
  have len: "length (sv_pending (sadd_cb i err s)) + 1 = length (sv_pending s)"
    using i by (simp add: sadd_cb_simps [OF p])
  have lt: "rid < sv_next s" and le1: "length (replies_for rid s) \<le> 1"
    using inv rin by (auto simp: srv_inv_def)
  have out: "replies_for r (sadd_cb i err s) = replies_for r s @
      (if r = rid then [(if err then 500 else 200, if err then err_body ''internal_db_error'' else success_body)] else [])"
    for r by (simp add: replies_for_def sadd_cb_simps [OF p])
  have th: "sv_thrown (sadd_cb i err s) = sv_thrown s @ (if replies_for rid s \<noteq> [] then [rid] else [])"
    by (simp add: sadd_cb_simps [OF p] answered_iff)
  have "rid \<notin> set (sv_thrown s)" using inv lt le1 by (auto simp: srv_inv_def)
  then show ?thesis
    using inv dl len lt le1 rin
    by (auto simp: srv_inv_def out th count_status_def sadd_cb_simps [OF p] answered_iff le_Suc_eq
        split: if_splits)
qed

lemma srv_inv_step: "srv_step valid c s s' \<Longrightarrow> srv_inv s \<Longrightarrow> srv_inv s'"
  by (induction rule: srv_step.induct) (auto intro: srv_inv_request srv_inv_reply)

lemma srv_inv_reachable: "srv_reachable valid c s \<Longrightarrow> srv_inv s"
  unfolding srv_reachable_def
  by (induction rule: rtranclp_induct) (auto intro: srv_inv_init srv_inv_step)

lemma check_user_falsy: "param_falsy u \<Longrightarrow> check_user c u = (True, None)"
  by (auto simp: param_falsy_def check_user_def)

text \<open>A request with a bad user and a game: the 403, then the \<^verbatim>\<open>SADD\<close> and its callback's \<^verbatim>\<open>res.json\<close>, which throws.\<close>

lemma purchase_bad_user_run:
  assumes "fst (check_user c (map_of P ''user''))" "map_of P ''game'' = Some g" "g \<noteq> []"
    and "replies_for (sv_next s) s = []"
  shows "replies_for (sv_next s) (purchase_req c P s) = [(403, err_body ''bad_user'')] \<and>
    sv_pending (purchase_req c P s) = sv_pending s @
      [(sv_next s, ''gamesPurchased:'' @ js_string (snd (check_user c (map_of P ''user''))), g)] \<and>
    replies_for (sv_next s) (sadd_cb (length (sv_pending s)) err (purchase_req c P s)) =
      [(403, err_body ''bad_user''), (if err then 500 else 200, if err then err_body ''internal_db_error'' else success_body)] \<and>
    sv_thrown (sadd_cb (length (sv_pending s)) err (purchase_req c P s)) = sv_thrown s @ [sv_next s] \<and>
    sv_sets (sadd_cb (length (sv_pending s)) err (purchase_req c P s)) =
      (if err then sv_sets s
       else (sv_sets s)(''gamesPurchased:'' @ js_string (snd (check_user c (map_of P ''user''))) :=
              insert g (sv_sets s (''gamesPurchased:'' @ js_string (snd (check_user c (map_of P ''user'')))))))"
proof -
  let ?key = "''gamesPurchased:'' @ js_string (snd (check_user c (map_of P ''user'')))"
  have fresh: "\<not> answered (sv_next s) s" using assms(4) by (simp add: answered_iff)
  have ng: "\<not> param_falsy (map_of P ''game'')" using assms(2,3) by (simp add: param_falsy_def)
  have pend: "sv_pending (purchase_req c P s) = sv_pending s @ [(sv_next s, ?key, g)]"
    using assms(2) ng by (simp add: purchase_req_simps [OF fresh])
  have p: "sv_pending (purchase_req c P s) ! length (sv_pending s) = (sv_next s, ?key, g)"
    by (simp add: pend nth_append)
  have r1: "replies_for (sv_next s) (purchase_req c P s) = [(403, err_body ''bad_user'')]"
    using assms(1,4) ng by (simp add: replies_for_def purchase_req_simps [OF fresh])
  have a1: "answered (sv_next s) (purchase_req c P s)" using r1 by (simp add: answered_iff)
  show ?thesis
    using r1 a1 pend assms(1) ng
    by (simp add: sadd_cb_simps [OF p] replies_for_def purchase_req_simps [OF fresh])
qed

text \<open>A reachable state: one accepted purchase whose \<^verbatim>\<open>SADD\<close> failed.\<close>

lemma srv_reachable_error_demo:
  "srv_reachable (\<lambda>P. True) (\<lambda>u. Some (JStr ''test0@test.com''))
     (sadd_cb 0 True (purchase_req (\<lambda>u. Some (JStr ''test0@test.com'')) [(''user'', ''ssa''), (''game'', ''mario-broskis'')] init_server))"
  unfolding srv_reachable_def
  by (rule rtranclp.rtrancl_into_rtrancl [OF rtranclp.rtrancl_into_rtrancl [OF rtranclp.rtrancl_refl]])
     (auto intro: srv_step.intros simp: purchase_req_simps answered_def check_user_def param_falsy_def)

text \<open>A reachable state: a purchase with a token that \<^verbatim>\<open>confirmSSA\<close> rejects, whose \<^verbatim>\<open>SADD\<close> succeeded.\<close>

lemma srv_reachable_bad_user_demo:
  "srv_reachable (\<lambda>P. True) (\<lambda>u. Some (JBool False))
     (sadd_cb 0 False (purchase_req (\<lambda>u. Some (JBool False)) [(''user'', ''bogus''), (''game'', ''mario-broskis'')] init_server))"
  unfolding srv_reachable_def
  by (rule rtranclp.rtrancl_into_rtrancl [OF rtranclp.rtrancl_into_rtrancl [OF rtranclp.rtrancl_refl]])
     (auto intro: srv_step.intros simp: purchase_req_simps answered_def check_user_def param_falsy_def)

text \<open>
  C24: the 403 branch for a bad user does not return. A purchase whose user
  \<^verbatim>\<open>confirmSSA\<close> rejects, with a game, is answered 403 \<open>bad_user\<close>; the handler still
  opens a Redis client and sends \<^verbatim>\<open>SADD\<close> to \<^verbatim>\<open>gamesPurchased:\<close> followed by the
  string of the falsy value \<^verbatim>\<open>confirmSSA\<close> returned; when that command succeeds the
  game is recorded under that key and the callback's \<^verbatim>\<open>res.json\<close> throws, the request
  having been answered.
\<close>

theorem purchase_bad_user_no_return:
  assumes "map_of P ''user'' = Some u" "u \<noteq> []" "\<not> truthy (c u)"
    and "map_of P ''game'' = Some g" "g \<noteq> []" and "replies_for (sv_next s) s = []"
  shows "replies_for (sv_next s) (purchase_req c P s) = [(403, err_body ''bad_user'')] \<and>
    sv_pending (purchase_req c P s) = sv_pending s @ [(sv_next s, ''gamesPurchased:'' @ js_string (c u), g)] \<and>
    sv_sets (sadd_cb (length (sv_pending s)) False (purchase_req c P s)) =
      (sv_sets s)(''gamesPurchased:'' @ js_string (c u) := insert g (sv_sets s (''gamesPurchased:'' @ js_string (c u)))) \<and>
    sv_thrown (sadd_cb (length (sv_pending s)) False (purchase_req c P s)) = sv_thrown s @ [sv_next s]"
proof -
  have cu: "check_user c (map_of P ''user'') = (True, c u)" using assms(1-3) by (simp add: check_user_def)
  from purchase_bad_user_run [of c P g s False] assms(4-6) show ?thesis by (simp add: cu)
qed

theorem purchase_bad_user_no_return_witness:
  "replies_for 0 (purchase_req (\<lambda>u. Some (JBool False)) [(''user'', ''bogus''), (''game'', ''mario-broskis'')] init_server) =
     [(403, err_body ''bad_user'')] \<and>
   sv_sets (sadd_cb 0 False (purchase_req (\<lambda>u. Some (JBool False))
     [(''user'', ''bogus''), (''game'', ''mario-broskis'')] init_server)) ''gamesPurchased:false'' = {''mario-broskis''}"
proof -
  have "replies_for (sv_next init_server) init_server = []" by (simp add: replies_for_def)
  from purchase_bad_user_no_return [of "[(''user'', ''bogus''), (''game'', ''mario-broskis'')]" "''bogus''"
      "\<lambda>u. Some (JBool False)" "''mario-broskis''" init_server, OF _ _ _ _ _ this]
  show ?thesis by simp
qed

text \<open>
  C25: a purchase with a user that \<^verbatim>\<open>confirmSSA\<close> accepts and a non-empty game gets
  exactly one reply, from the \<^verbatim>\<open>SADD\<close> callback: on success 200 \<open>{success: true}\<close>,
  the game added to the set \<^verbatim>\<open>gamesPurchased:<email>\<close> and the client closed; on a
  database error 500 \<open>internal_db_error\<close>, the sets unchanged and the client left open.
\<close>

theorem purchase_valid_reply:
  assumes "map_of P ''user'' = Some u" "u \<noteq> []" "c u = Some (JStr e)" "e \<noteq> []"
    and "map_of P ''game'' = Some g" "g \<noteq> []" and "replies_for (sv_next s) s = []"
  shows "replies_for (sv_next s) (sadd_cb (length (sv_pending s)) err (purchase_req c P s)) =
      [(if err then 500 else 200, if err then err_body ''internal_db_error'' else success_body)] \<and>
    sv_sets (sadd_cb (length (sv_pending s)) err (purchase_req c P s)) =
      (if err then sv_sets s
       else (sv_sets s)(''gamesPurchased:'' @ e := insert g (sv_sets s (''gamesPurchased:'' @ e)))) \<and>
    sv_clients (sadd_cb (length (sv_pending s)) err (purchase_req c P s)) =
      (if err then Suc (sv_clients s) else sv_clients s) \<and>
    sv_pending (sadd_cb (length (sv_pending s)) err (purchase_req c P s)) = sv_pending s"
proof -
  have fresh: "\<not> answered (sv_next s) s" using assms(7) by (simp add: answered_iff)
  have cu: "check_user c (map_of P ''user'') = (False, Some (JStr e))"
    using assms(1-4) by (simp add: check_user_def)
  have ng: "\<not> param_falsy (map_of P ''game'')" using assms(5,6) by (simp add: param_falsy_def)
  have p: "sv_pending (purchase_req c P s) ! length (sv_pending s) = (sv_next s, ''gamesPurchased:'' @ e, g)"
    using assms(5) ng by (simp add: purchase_req_simps [OF fresh] cu nth_append)
  have "\<not> answered (sv_next s) (purchase_req c P s)"
    using assms(7) ng by (simp add: answered_iff replies_for_def purchase_req_simps [OF fresh] cu)
  then show ?thesis
    using assms(7) ng by (simp add: sadd_cb_simps [OF p] purchase_req_simps [OF fresh] cu replies_for_def)
qed

theorem purchase_valid_reply_witness:
  "replies_for 0 (sadd_cb 0 False (purchase_req (\<lambda>u. Some (JStr ''test0@test.com''))
      [(''user'', ''ssa''), (''game'', ''mario-broskis'')] init_server)) = [(200, success_body)] \<and>
   sv_sets (sadd_cb 0 False (purchase_req (\<lambda>u. Some (JStr ''test0@test.com''))
      [(''user'', ''ssa''), (''game'', ''mario-broskis'')] init_server)) ''gamesPurchased:test0@test.com'' =
     {''mario-broskis''}"
proof -
  have "replies_for (sv_next init_server) init_server = []" by (simp add: replies_for_def)
  from purchase_valid_reply [of "[(''user'', ''ssa''), (''game'', ''mario-broskis'')]" "''ssa''"
      "\<lambda>u. Some (JStr ''test0@test.com'')" "''test0@test.com''" "''mario-broskis''" init_server False, OF _ _ _ _ _ _ this]
  show ?thesis by simp
qed

text \<open>
  C26: in every reachable state of the server, for every route validation, whatever
  the interleaving of requests and callbacks and whatever the database answers,
  each issued request makes at most two \<^verbatim>\<open>res.json\<close> calls, has been answered once
  no command of it is pending, and has thrown exactly when it made two (the second
  finds the headers sent): every bad-user or bad-game request whose handler goes on
  ends in an exception.
\<close>

theorem srv_replies:
  assumes "srv_reachable valid c s" "rid < sv_next s"
  shows "length (replies_for rid s) \<le> 2 \<and> (rid \<notin> set (pending_rids s) \<longrightarrow> replies_for rid s \<noteq> []) \<and>
    (rid \<in> set (sv_thrown s) \<longleftrightarrow> length (replies_for rid s) = 2)"
  using srv_inv_reachable [OF assms(1)] assms(2) by (simp add: srv_inv_def)

theorem srv_replies_witness:
  "0 \<in> set (sv_thrown (sadd_cb 0 False (purchase_req (\<lambda>u. Some (JBool False))
      [(''user'', ''bogus''), (''game'', ''mario-broskis'')] init_server))) \<and>
   length (replies_for 0 (sadd_cb 0 False (purchase_req (\<lambda>u. Some (JBool False))
      [(''user'', ''bogus''), (''game'', ''mario-broskis'')] init_server))) = 2"
proof -
  let ?s = "sadd_cb 0 False (purchase_req (\<lambda>u. Some (JBool False))
      [(''user'', ''bogus''), (''game'', ''mario-broskis'')] init_server)"
  have p: "sv_pending (purchase_req (\<lambda>u. Some (JBool False))
      [(''user'', ''bogus''), (''game'', ''mario-broskis'')] init_server) ! 0 =
      (0, ''gamesPurchased:false'', ''mario-broskis'')"
    by (simp add: purchase_req_simps answered_def check_user_def param_falsy_def)
  have "0 < sv_next ?s" by (simp add: sadd_cb_simps [OF p] purchase_req_simps answered_def)
  from srv_replies [OF srv_reachable_bad_user_demo this] show ?thesis
    by (simp add: replies_for_def sadd_cb_simps [OF p] purchase_req_simps answered_def check_user_def
        param_falsy_def)
qed

text \<open>
  C27: the Redis client is not closed on the error path: in every reachable state the
  open clients are exactly the pending commands plus one per \<^verbatim>\<open>res.json(500)\<close>, so
  every database error leaks a client.
\<close>

theorem srv_client_leak:
  assumes "srv_reachable valid c s"
  shows "sv_clients s = length (sv_pending s) + count_status 500 s"
  using srv_inv_reachable [OF assms] by (simp add: srv_inv_def)

theorem srv_client_leak_witness:
  "sv_clients (sadd_cb 0 True (purchase_req (\<lambda>u. Some (JStr ''test0@test.com''))
      [(''user'', ''ssa''), (''game'', ''mario-broskis'')] init_server)) = 1 \<and>
   sv_pending (sadd_cb 0 True (purchase_req (\<lambda>u. Some (JStr ''test0@test.com''))
      [(''user'', ''ssa''), (''game'', ''mario-broskis'')] init_server)) = []"
proof -
  have p: "sv_pending (purchase_req (\<lambda>u. Some (JStr ''test0@test.com''))
      [(''user'', ''ssa''), (''game'', ''mario-broskis'')] init_server) ! 0 =
      (0, ''gamesPurchased:test0@test.com'', ''mario-broskis'')"
    by (simp add: purchase_req_simps answered_def check_user_def param_falsy_def)
  from srv_client_leak [OF srv_reachable_error_demo] show ?thesis
    by (simp add: count_status_def sadd_cb_simps [OF p] purchase_req_simps answered_def check_user_def
        param_falsy_def)
qed

text \<open>
  C28: the game detail handler writes exactly one response and calls \<^verbatim>\<open>done()\<close>
  exactly once on every path; the response is 200 with the game exactly when the slug
  is present and the lookup yields a truthy value, 400 without a slug, 500 otherwise.
\<close>

theorem detail_single_reply:
  "length (fst (detail look slug)) = 1 \<and> snd (detail look slug) = 1 \<and>
   (fst (hd (fst (detail look slug))) = 200 \<longleftrightarrow> \<not> param_falsy slug \<and> truthy (look (the slug))) \<and>
   (fst (hd (fst (detail look slug))) = 400 \<longleftrightarrow> param_falsy slug)"
  by (simp add: detail_def Let_def)

end
