(* ===== verification/Spec2Isabelle.thy ===== *)
theory Spec2Isabelle
  imports Users Games Friends Purchases Orchestrator Handlers
begin

text \<open>
  Verification of the synthetic-data prefill script of galaxy-api
  (\<^verbatim>\<open>src/scripts/db-prefill.js\<close>) and of the two route handlers of the API
  (\<^verbatim>\<open>src/views/user/purchase.js\<close>, \<^verbatim>\<open>src/views/game/detail.js\<close>).

  \<^bold>\<open>The program.\<close> The script optionally flushes Redis, then runs stage 1
  (\<^verbatim>\<open>createUsers\<close>: per identity a \<^verbatim>\<open>/generate\<close> request to the Persona faker then
  a \<^verbatim>\<open>/user/login\<close>; \<^verbatim>\<open>createGames\<close>: one \<^verbatim>\<open>/game/submit\<close> per catalog entry)
  and, on its result, stage 2 (\<^verbatim>\<open>purchaseGames\<close>: two sampled slugs per session;
  \<^verbatim>\<open>createFriends\<close>: per user \<^verbatim>\<open>Math.min(3, USER_COUNT)\<close> sampled friend requests,
  then one accept per populated edge), then prints a summary; a rejection ends it
  with status 1. Every request is concurrent with its siblings; joins are
  \<^verbatim>\<open>Promise.all\<close> and \<^verbatim>\<open>promiseMap\<close>.

  \<^bold>\<open>Theories.\<close>
  \<^item> \<open>Prelude\<close>: the lemma collections, \<open>ebind\<close> (a callback body that may throw),
    list facts shared by the components.
  \<^item> \<open>Async\<close>: the execution model. A task, started at a time against a network
    (\<open>net t q\<close> gives the latency and response of request \<open>q\<close> sent at \<open>t\<close>), yields the
    requests it issued with their times, the time it settles and its result.
    \<open>t_call\<close> is \<^verbatim>\<open>request.post\<close> with its callback, \<open>t_bind\<close>/\<open>t_then\<close> are
    \<^verbatim>\<open>.then\<close>, \<open>t_all\<close> is \<^verbatim>\<open>Promise.all\<close> (values in order when all fulfil, else the
    earliest failure, ties to the lower index, no cancellation), \<open>t_pair\<close> is
    \<^verbatim>\<open>promiseMap\<close> over two keys. Lemmas: evaluation equations, the join's result
    and time, and that every task issues its requests no earlier than it starts and
    no later than it settles (\<open>task_wf\<close>).
  \<^item> \<open>Json\<close>, \<open>Wire\<close>: JavaScript values (\<open>undefined\<close>, property access that throws on
    \<open>null\<close>, truthiness, \<open>JSON.parse\<close>, \<open>String(v)\<close>), the requests, responses and
    failures: a rejection with its reason, or an exception thrown in a request
    callback (\<open>Crash\<close>), which ends the process.
  \<^item> \<open>Lodash\<close>: \<^verbatim>\<open>_.sample\<close> as lodash 3's partial Fisher--Yates loop over explicit random
    draws (\<open>sample_loop\<close>; the sample is a prefix of a permutation, of length
    \<open>min n (length xs)\<close>, repetition-free) and \<^verbatim>\<open>_.defaults\<close> (closed form: the
    object followed by the source entries it lacks).
  \<^item> \<open>Users\<close> (lines 48--104): \<open>createUser\<close>, \<open>login\<close>, \<open>user_chain\<close>,
    \<open>createUsers\<close>; C1--C4.
  \<^item> \<open>Games\<close> (lines 196--218): \<open>game_form\<close>, \<open>submitGame\<close>, \<open>createGames\<close>; C5--C8.
  \<^item> \<open>Friends\<close> (lines 106--194): \<open>sendRequest\<close>, \<open>sendRequests\<close>,
    \<open>acceptRequest\<close>, \<open>userFriends\<close>, \<open>createFriends\<close>; C9--C14.
  \<^item> \<open>Purchases\<close> (lines 220--247): \<open>newPurchase\<close>, \<open>purchaseGames\<close>, and the
    form the API receives (\<open>purchase_form\<close>); C15--C16.
  \<^item> \<open>Orchestrator\<close> (lines 35--46, 249--272): \<open>stage1\<close>, \<open>stage2\<close>, \<open>run\<close>,
    \<open>prefill\<close>, the exit status; C17--C23: stage order, abort on a failed identity,
    termination and the request counts on an all-success network, the printed
    counts, the flush first, the crash on a non-JSON login.
  \<^item> \<open>Handlers\<close>: the purchase handler as a server state with the step relation
    \<open>srv_step\<close> (requests and \<^verbatim>\<open>SADD\<close> callbacks interleaved; a second
    \<^verbatim>\<open>res.json\<close> on a request throws), its invariant \<open>srv_inv\<close> by rule induction,
    and the detail handler; C24--C28.
  \<^item> This theory: C29, the script's purchases against the handler.

  \<^bold>\<open>Model choices.\<close> The network is a parameter, so every result holds for every
  latency and response pattern; \<open>happy_net\<close> (every request answered successfully
  after one time unit) and \<open>net_with\<close> (one request answered differently) build the
  concrete networks of the witnesses. The random draws of \<^verbatim>\<open>_.sample\<close> are
  arguments (\<open>choices\<close>), so results hold for every draw. \<^verbatim>\<open>USER_COUNT\<close>, the
  catalog and the flush flag are the record \<open>config\<close>; \<open>code_config\<close> is the
  script's own. No loop of the script is unbounded: every definition is total and
  executable, so no fuel is needed; witnesses evaluate by \<open>simp\<close> and
  \<open>code_simp\<close>.

  \<^bold>\<open>Not modelled.\<close> Console output; \<^verbatim>\<open>lib/utils\<close>, \<^verbatim>\<open>lib/auth\<close>,
  \<^verbatim>\<open>lib/game\<close>, \<^verbatim>\<open>db\<close>, settings and the restify plugin that enforces route
  validation, which are not in \<^verbatim>\<open>src/\<close>: \<^verbatim>\<open>promiseMap\<close> is taken as fail-fast
  over its two keys, \<^verbatim>\<open>confirmSSA\<close>, the game lookup and the validation predicate are
  parameters of the handler models. The lodash version is not pinned in
  \<^verbatim>\<open>src/\<close>; the array-returning \<^verbatim>\<open>_.sample(xs, n)\<close> the script relies on is
  lodash 3's.
\<close>

text \<open>
  C29: the purchases of the prefill script are never recorded for their user. The
  script sends the session token as \<^verbatim>\<open>_user\<close> while the route reads \<^verbatim>\<open>user\<close>.
  Where the route validation enforces \<^verbatim>\<open>user\<close>, the request never reaches the
  handler. Where it does reach it, for every token and slug and whatever the database
  answers, the only reply the client receives is 403 \<open>bad_user\<close>, the
  \<^verbatim>\<open>res.json\<close> of the \<^verbatim>\<open>SADD\<close> callback throws, and no set other than
  \<^verbatim>\<open>gamesPurchased:undefined\<close> changes. The script resolves the purchase with the
  body whatever it says, so the run still ends with the summary line.
\<close>

theorem script_purchase_never_recorded:
  assumes "g \<noteq> []" and "replies_for (sv_next s) s = []"
  shows "hd (replies_for (sv_next s) (sadd_cb (length (sv_pending s)) err
        (purchase_req c (purchase_form tok (Some (JStr g))) s))) = (403, err_body ''bad_user'') \<and>
    sv_next s \<in> set (sv_thrown (sadd_cb (length (sv_pending s)) err (purchase_req c (purchase_form tok (Some (JStr g))) s))) \<and>
    (\<forall>k. k \<noteq> ''gamesPurchased:undefined'' \<longrightarrow>
       sv_sets (sadd_cb (length (sv_pending s)) err (purchase_req c (purchase_form tok (Some (JStr g))) s)) k = sv_sets s k)"
proof -
  have u: "check_user c (map_of (purchase_form tok (Some (JStr g))) ''user'') = (True, None)"
    by (simp add: purchase_form_def check_user_def)
  have "map_of (purchase_form tok (Some (JStr g))) ''game'' = Some g"
    by (simp add: purchase_form_def)
  from purchase_bad_user_run [of c "purchase_form tok (Some (JStr g))", OF _ this assms, of err] u
  show ?thesis by simp
qed

theorem script_purchase_never_recorded_witness:
  "hd (replies_for 0 (sadd_cb 0 False (purchase_req (\<lambda>u. None)
       (purchase_form (Some (JStr ''ssa'')) (Some (JStr ''mario-broskis''))) init_server))) =
     (403, err_body ''bad_user'') \<and>
   sv_sets (sadd_cb 0 False (purchase_req (\<lambda>u. None)
       (purchase_form (Some (JStr ''ssa'')) (Some (JStr ''mario-broskis''))) init_server)) ''gamesPurchased:test0@test.com'' = {}"
proof -
  have g: "''mario-broskis'' \<noteq> []" by simp
  have r: "replies_for (sv_next init_server) init_server = []" by (simp add: replies_for_def)
  from script_purchase_never_recorded [where c = "\<lambda>u. None" and tok = "Some (JStr ''ssa'')" and err = False, OF g r]
  show ?thesis by simp
qed

end
